theory Spec2Isabelle
  imports Main "HOL-Library.Word"
begin

unbundle bit_operations_syntax

section \<open>proto2json: results, panics and errors\<close>

text \<open>
  The program is a single Go file, \<^verbatim>\<open>main.go\<close>. A Go function can end in three ways:
  it returns normally, it returns a non-nil \<^verbatim>\<open>error\<close>, or it panics (a runtime panic
  such as an index out of range, or an explicit \<^verbatim>\<open>panic(err)\<close>). All three are values
  of the model.
\<close>

type_synonym byte = "8 word"

datatype hex_error =
    InvalidByteError char
  | ErrLength

datatype runtime_panic =
    IndexOutOfRange nat nat
  | MakeSizeOutOfRange
  | InterfaceConversion

datatype error =
    HexError nat hex_error nat char
  | ReadFileError
  | ProtoUnmarshalError
  | NewFileError
  | RegisterFileError
  | NotFoundError
  | CsvReadFailed
  | NotEnoughFieldData "32 word"
  | EmptyFieldName
  | DataFieldNotInFields string
  | ReceiverCountNotPositive
  | InvalidWriterName string
  | InvalidMarshalerName string
  | CreateFileError
  | OpenFileError
  | WriteFileError
  | MarshalError

datatype 'a outcome =
    Panic runtime_panic
  | Err error
  | Ok 'a

section \<open>Hex text to bytes: the first half of \<^verbatim>\<open>parseData\<close>\<close>

text \<open>
  \<^verbatim>\<open>encoding/hex\<close>: \<^verbatim>\<open>fromHexChar\<close> maps one hex digit to its value, \<^verbatim>\<open>Decode(dst, src)\<close>
  walks \<^verbatim>\<open>src\<close> two characters at a time, stores one byte per pair into \<^verbatim>\<open>dst\<close> and
  returns the number of bytes written together with \<^verbatim>\<open>InvalidByteError\<close> for the first
  character that is no hex digit, or \<^verbatim>\<open>ErrLength\<close> when a single character is left over.
\<close>

definition fromHexChar :: "char \<Rightarrow> byte option" where
  "fromHexChar c =
     (let n = (of_char c :: nat) in
      if 48 \<le> n \<and> n \<le> 57 then Some (of_nat (n - 48))
      else if 97 \<le> n \<and> n \<le> 102 then Some (of_nat (n - 97 + 10))
      else if 65 \<le> n \<and> n \<le> 70 then Some (of_nat (n - 65 + 10))
      else None)"

datatype decode_result =
    DecodePanic runtime_panic
  | Decoded "byte list" nat "hex_error option"

fun Decode :: "byte list \<Rightarrow> string \<Rightarrow> nat \<Rightarrow> decode_result" where
  "Decode dst [] i = Decoded dst i None"
| "Decode dst [p] i =
     (case fromHexChar p of
        None \<Rightarrow> Decoded dst i (Some (InvalidByteError p))
      | Some a \<Rightarrow> Decoded dst i (Some ErrLength))"
| "Decode dst (p # q # rest) i =
     (case fromHexChar p of
        None \<Rightarrow> Decoded dst i (Some (InvalidByteError p))
      | Some a \<Rightarrow>
          (case fromHexChar q of
             None \<Rightarrow> Decoded dst i (Some (InvalidByteError q))
           | Some b \<Rightarrow>
               if i < length dst
               then Decode (dst[i := push_bit 4 a OR b]) rest (Suc i)
               else DecodePanic (IndexOutOfRange i (length dst))))"

text \<open>\<^verbatim>\<open>make([]byte, n)\<close>: a zeroed slice; a negative length panics.\<close>

definition make_bytes :: "int \<Rightarrow> byte list outcome" where
  "make_bytes n = (if n < 0 then Panic MakeSizeOutOfRange else Ok (replicate (nat n) 0))"

text \<open>
  The condition of line 81, \<^verbatim>\<open>'0' == data[0] && ('x' == data[1] || 'X' == data[1])\<close>.
  \<^verbatim>\<open>data[0]\<close> is read first; \<^verbatim>\<open>&&\<close> reads \<^verbatim>\<open>data[1]\<close> only when \<^verbatim>\<open>data[0]\<close> is
  \<^verbatim>\<open>'0'\<close>. Each read outside the slice is a runtime panic.
\<close>

definition hasRadixMarker :: "string \<Rightarrow> bool outcome" where
  "hasRadixMarker data =
     (if length data \<le> 0 then Panic (IndexOutOfRange 0 (length data))
      else if data ! 0 = CHR ''0'' then
        (if length data \<le> 1 then Panic (IndexOutOfRange 1 (length data))
         else Ok (data ! 1 = CHR ''x'' \<or> data ! 1 = CHR ''X''))
      else Ok False)"

text \<open>
  Lines 78 to 90 of \<^verbatim>\<open>parseData\<close>: the slice \<^verbatim>\<open>binary\<close> handed to
  \<^verbatim>\<open>unmarshalProtoData\<close>, or the error built by \<^verbatim>\<open>fmt.Errorf\<close> from the position, the
  hex error, the length of the text and its last byte.
\<close>

definition parseData_binary :: "string \<Rightarrow> byte list outcome" where
  "parseData_binary data =
     (case hasRadixMarker data of
        Panic p \<Rightarrow> Panic p
      | Err e \<Rightarrow> Err e
      | Ok marked \<Rightarrow>
          (case make_bytes (if marked then int (length data) div 2 - 1
                            else int (length data) div 2) of
             Panic p \<Rightarrow> Panic p
           | Err e \<Rightarrow> Err e
           | Ok dst \<Rightarrow>
               (case Decode dst (if marked then drop 2 data else data) 0 of
                  DecodePanic p \<Rightarrow> Panic p
                | Decoded binary pos (Some err) \<Rightarrow>
                    Err (HexError pos err (length data) (data ! (length data - 1)))
                | Decoded binary pos None \<Rightarrow> Ok binary)))"


section \<open>Descriptors, messages and values (\<^verbatim>\<open>protoreflect\<close>, \<^verbatim>\<open>dynamicpb\<close>)\<close>

text \<open>
  \<^verbatim>\<open>main.go\<close> sees a parsed message only through the methods it calls:
  \<^verbatim>\<open>descriptor.Fields()\<close> (the fields in declaration order), \<^verbatim>\<open>field.Name()\<close>,
  \<^verbatim>\<open>field.IsList()\<close>, \<^verbatim>\<open>msg.Has(field)\<close>, \<^verbatim>\<open>msg.Get(field)\<close>, \<^verbatim>\<open>Value.List()\<close> and
  \<^verbatim>\<open>Value.Interface()\<close>. A message is therefore an object with the two methods \<open>Has\<close>
  and \<open>Get\<close>; a \<^verbatim>\<open>protoreflect.Value\<close> holds a scalar, a message, a list or a map.
\<close>

datatype scalar =
    BoolValue bool
  | Int32Value "32 word"
  | Int64Value "64 word"
  | Uint32Value "32 word"
  | Uint64Value "64 word"
  | Float32Bits "32 word"
  | Float64Bits "64 word"
  | StringValue string
  | BytesValue "byte list"
  | EnumNumber "32 word"

datatype kind =
    BoolKind | EnumKind | Int32Kind | Sint32Kind | Uint32Kind
  | Int64Kind | Sint64Kind | Uint64Kind | Sfixed32Kind | Fixed32Kind | FloatKind
  | Sfixed64Kind | Fixed64Kind | DoubleKind | StringKind | BytesKind
  | MessageKind | GroupKind

datatype fieldDescriptor =
  FieldDescriptor (Name: string) (Number: nat) (IsList: bool) (Kind: kind)

datatype messageDescriptor =
  MessageDescriptor (FullName: string) (Fields: "fieldDescriptor list")

datatype pvalue =
    ScalarV scalar
  | MessageV message
  | ListV "pvalue list"
  | MapV "(pvalue \<times> pvalue) list"
and message =
  Message (Has: "fieldDescriptor \<Rightarrow> bool") (Get: "fieldDescriptor \<Rightarrow> pvalue")

text \<open>
  A Go \<^verbatim>\<open>interface{}\<close> value as the program builds them: what \<^verbatim>\<open>Value.Interface()\<close>
  returns (the Go scalar, or the \<^verbatim>\<open>protoreflect.Message\<close>, \<^verbatim>\<open>protoreflect.List\<close> or
  \<^verbatim>\<open>protoreflect.Map\<close> object itself), a \<^verbatim>\<open>[]interface{}\<close> and a
  \<^verbatim>\<open>map[string]interface{}\<close>.
\<close>

datatype iface =
    GoScalar scalar
  | ProtoMessage message
  | ProtoList "pvalue list"
  | ProtoMap "(pvalue \<times> pvalue) list"
  | InterfaceSlice "iface list"
  | StringMap "string \<Rightarrow> iface option"

fun Interface :: "pvalue \<Rightarrow> iface" where
  "Interface (ScalarV s) = GoScalar s"
| "Interface (MessageV m) = ProtoMessage m"
| "Interface (ListV xs) = ProtoList xs"
| "Interface (MapV es) = ProtoMap es"

text \<open>\<^verbatim>\<open>Value.List()\<close> panics when the value holds no list.\<close>

fun List :: "pvalue \<Rightarrow> pvalue list outcome" where
  "List (ListV xs) = Ok xs"
| "List v = Panic InterfaceConversion"

section \<open>\<^verbatim>\<open>convertToMap\<close>\<close>

text \<open>
  The inner loop of lines 49 to 53: \<^verbatim>\<open>list = append(list, v.Get(j).Interface())\<close> for
  \<open>j\<close> from \<open>0\<close> to \<open>v.Len() - 1\<close>.
\<close>

definition listInterfaces :: "pvalue list \<Rightarrow> iface list" where
  "listInterfaces v = foldl (\<lambda>list j. list @ [Interface (v ! j)]) [] [0..<length v]"

text \<open>One round of the loop over the fields (lines 43 to 58), on the map built so far.\<close>

definition convertField ::
  "message \<Rightarrow> fieldDescriptor \<Rightarrow> (string \<rightharpoonup> iface) \<Rightarrow> (string \<rightharpoonup> iface) outcome" where
  "convertField msg field result =
     (if \<not> Has msg field then Ok result
      else if IsList field then
        (case List (Get msg field) of
           Panic p \<Rightarrow> Panic p
         | Err e \<Rightarrow> Err e
         | Ok v \<Rightarrow> Ok (result(Name field \<mapsto> InterfaceSlice (listInterfaces v))))
      else Ok (result(Name field \<mapsto> Interface (Get msg field))))"

fun convertFields ::
  "message \<Rightarrow> fieldDescriptor list \<Rightarrow> (string \<rightharpoonup> iface) \<Rightarrow> (string \<rightharpoonup> iface) outcome" where
  "convertFields msg [] result = Ok result"
| "convertFields msg (field # rest) result =
     (case convertField msg field result of
        Panic p \<Rightarrow> Panic p
      | Err e \<Rightarrow> Err e
      | Ok result' \<Rightarrow> convertFields msg rest result')"

definition convertToMap :: "messageDescriptor \<Rightarrow> message \<Rightarrow> (string \<rightharpoonup> iface) outcome" where
  "convertToMap descriptor msg = convertFields msg (Fields descriptor) Map.empty"

section \<open>The libraries and the file system\<close>

text \<open>
  The functions of \<^verbatim>\<open>io/ioutil\<close>, \<^verbatim>\<open>os\<close>, \<^verbatim>\<open>encoding/csv\<close>, \<^verbatim>\<open>encoding/json\<close> and
  \<^verbatim>\<open>google.golang.org/protobuf\<close> that \<^verbatim>\<open>main.go\<close> calls are parameters of the model.
  \<open>'pb\<close> is a \<^verbatim>\<open>FileDescriptorProto\<close>, \<open>'fd\<close> a \<^verbatim>\<open>protoreflect.FileDescriptor\<close> and
  \<open>'reg\<close> the state of \<^verbatim>\<open>protoregistry.GlobalFiles\<close>. \<open>UnmarshalSet\<close> is
  \<^verbatim>\<open>proto.Unmarshal\<close> into a \<^verbatim>\<open>FileDescriptorSet\<close> followed by \<^verbatim>\<open>GetFile()\<close>.
  \<open>CsvRead\<close> gives the results of the successive \<^verbatim>\<open>reader.Read()\<close> calls on a text,
  up to but excluding the final \<^verbatim>\<open>io.EOF\<close>. \<open>MakeChanLimit\<close> is the largest capacity
  for which the runtime's \<^verbatim>\<open>makechan\<close> makes a channel of pointers: the number of elements
  that fit below its allocation limit.
\<close>

datatype descriptor =
    MessageDesc messageDescriptor
  | OtherDesc

datatype read_result =
    Row "string list"
  | RowWithError "string list"
  | ReadFailure

datatype ('pb, 'fd, 'reg) library =
  Library
    (ReadFile: "string \<Rightarrow> error + byte list")
    (UnmarshalSet: "byte list \<Rightarrow> error + 'pb list")
    (NewFile: "'pb \<Rightarrow> 'reg \<Rightarrow> error + 'fd")
    (RegisterFile: "'reg \<Rightarrow> 'fd \<Rightarrow> error + 'reg")
    (FindDescriptorByName: "'reg \<Rightarrow> string \<Rightarrow> error + descriptor")
    (Unmarshal: "byte list \<Rightarrow> messageDescriptor \<Rightarrow> error + message")
    (JsonMarshal: "(string \<Rightarrow> iface option) \<Rightarrow> error + byte list")
    (CsvRead: "string \<Rightarrow> read_result list")
    (OpenSource: "string \<Rightarrow> error + string")
    (MakeChanLimit: nat)

section \<open>\<^verbatim>\<open>unmarshalProtoData\<close> and \<^verbatim>\<open>parseData\<close>\<close>

text \<open>
  The type assertion \<^verbatim>\<open>desc.(protoreflect.MessageDescriptor)\<close> of line 68 panics when the
  name resolves to a descriptor that is no message descriptor.
\<close>

definition unmarshalProtoData ::
  "('pb, 'fd, 'reg) library \<Rightarrow> 'reg \<Rightarrow> byte list \<Rightarrow> string \<Rightarrow> (string \<rightharpoonup> iface) outcome" where
  "unmarshalProtoData lib reg bytes msgName =
     (case FindDescriptorByName lib reg msgName of
        Inl e \<Rightarrow> Err e
      | Inr OtherDesc \<Rightarrow> Panic InterfaceConversion
      | Inr (MessageDesc descriptor) \<Rightarrow>
          (case Unmarshal lib bytes descriptor of
             Inl e \<Rightarrow> Err e
           | Inr msg \<Rightarrow> convertToMap descriptor msg))"

definition parseData ::
  "('pb, 'fd, 'reg) library \<Rightarrow> 'reg \<Rightarrow> string \<Rightarrow> string \<Rightarrow> (string \<rightharpoonup> iface) outcome" where
  "parseData lib reg text msgName =
     (case parseData_binary text of
        Panic p \<Rightarrow> Panic p
      | Err e \<Rightarrow> Err e
      | Ok binary \<Rightarrow> unmarshalProtoData lib reg binary msgName)"

section \<open>The writers\<close>

text \<open>
  \<^verbatim>\<open>FileWriter\<close> holds a mutex and an open file. The file is a state \<open>'f\<close> of the
  operating system; \<open>write\<close> is \<^verbatim>\<open>(*os.File).Write\<close>, which returns the new state and
  the error, if any. \<^verbatim>\<open>Write\<close> locks the mutex, writes the record, writes the newline and
  unlocks (the deferred \<^verbatim>\<open>Unlock\<close>) on every return path.
\<close>

datatype 'f FileWriter =
  FileWriter (mutexLocked: bool) (osFile: 'f)

definition Lock :: "'f FileWriter \<Rightarrow> 'f FileWriter" where
  "Lock w = FileWriter True (osFile w)"

definition Unlock :: "'f FileWriter \<Rightarrow> 'f FileWriter" where
  "Unlock w = FileWriter False (osFile w)"

definition FileWriter_Write ::
  "('f \<Rightarrow> byte list \<Rightarrow> 'f \<times> error option) \<Rightarrow> 'f FileWriter \<Rightarrow> byte list
     \<Rightarrow> 'f FileWriter \<times> error option" where
  "FileWriter_Write write w bytes =
     (let w1 = Lock w in
      case write (osFile w1) bytes of
        (f1, Some err) \<Rightarrow> (Unlock (FileWriter (mutexLocked w1) f1), Some err)
      | (f1, None) \<Rightarrow>
          (case write f1 [10] of
             (f2, Some err) \<Rightarrow> (Unlock (FileWriter (mutexLocked w1) f2), None)
           | (f2, None) \<Rightarrow> (Unlock (FileWriter (mutexLocked w1) f2), None)))"

text \<open>\<^verbatim>\<open>ConsoleWriter.Write\<close>: \<^verbatim>\<open>fmt.Printf("%s\n", data)\<close> on the standard output.\<close>

definition ConsoleWriter_Write :: "byte list \<Rightarrow> byte list \<Rightarrow> byte list \<times> error option" where
  "ConsoleWriter_Write stdout bytes = (stdout @ bytes @ [10], None)"

section \<open>\<^verbatim>\<open>ReadData\<close>\<close>

text \<open>
  A \<^verbatim>\<open>Data\<close> is a line number (\<^verbatim>\<open>uint32\<close>) and a map from field names to values.
  The loop \<^verbatim>\<open>for k, v := range fields { data.data[v] = records[k] }\<close> is \<open>bindColumns\<close>;
  it runs only after \<^verbatim>\<open>len(records) < len(fields)\<close> has been excluded.
\<close>

datatype Data =
  Data (Data_line: "32 word") (Data_data: "string \<Rightarrow> iface option")

definition bindColumns :: "string list \<Rightarrow> string list \<Rightarrow> (string \<rightharpoonup> iface)" where
  "bindColumns fieldNames records =
     foldl (\<lambda>m k. m(fieldNames ! k \<mapsto> GoScalar (StringValue (records ! k))))
       Map.empty [0..<length fieldNames]"

text \<open>
  What \<^verbatim>\<open>reader.Read()\<close> hands to the loop: \<open>Row\<close> is a record without error,
  \<open>RowWithError\<close> a record together with a non-nil error other than \<^verbatim>\<open>io.EOF\<close> (the
  reader's \<^verbatim>\<open>ErrFieldCount\<close>), \<open>ReadFailure\<close> a nil record with such an error. The end
  of the list is \<^verbatim>\<open>io.EOF\<close>.
\<close>

fun recordsOf :: "read_result \<Rightarrow> string list option" where
  "recordsOf (Row records) = Some records"
| "recordsOf (RowWithError records) = Some records"
| "recordsOf ReadFailure = None"

text \<open>
  \<^verbatim>\<open>ReadData\<close> is a sequential process that sends on the channel \<^verbatim>\<open>dataList\<close> and then
  returns. Its model gives the \<^verbatim>\<open>Data\<close> values it sends, in order, and the error it
  returns (\<open>None\<close> for \<^verbatim>\<open>nil\<close>); \<open>count\<close> is the \<^verbatim>\<open>uint32\<close> counter, which wraps
  around. Each send waits until the channel has room.
\<close>

fun ReadData_loop :: "read_result list \<Rightarrow> string list \<Rightarrow> 32 word \<Rightarrow> Data list \<times> error option" where
  "ReadData_loop [] fieldNames count = ([], None)"
| "ReadData_loop (r # rest) fieldNames count =
     (case recordsOf r of
        None \<Rightarrow> ([], Some CsvReadFailed)
      | Some records \<Rightarrow>
          (let count' = count + 1 in
           if length records < length fieldNames
           then ([], Some (NotEnoughFieldData count'))
           else (case ReadData_loop rest fieldNames count' of
                   (sent, res) \<Rightarrow> (Data count' (bindColumns fieldNames records) # sent, res))))"

definition ReadData :: "read_result list \<Rightarrow> string list \<Rightarrow> Data list \<times> error option" where
  "ReadData reads fieldNames = ReadData_loop reads fieldNames 0"

section \<open>\<^verbatim>\<open>registerPbFile\<close>\<close>

datatype io_event =
    IoReadFile string
  | IoCreate string
  | IoOpen string

text \<open>
  \<^verbatim>\<open>registerPbFile\<close> reads the file, deserialises the descriptor set, takes
  \<^verbatim>\<open>set.GetFile()[0]\<close>, builds the file descriptor and registers it. The model returns the
  file-system accesses made and the new state of the global registry.
\<close>

definition registerPbFile ::
  "('pb, 'fd, 'reg) library \<Rightarrow> 'reg \<Rightarrow> string \<Rightarrow> io_event list \<times> 'reg outcome" where
  "registerPbFile lib reg filename =
     ([IoReadFile filename],
      (case ReadFile lib filename of
         Inl err \<Rightarrow> Err err
       | Inr bytes \<Rightarrow>
           (case UnmarshalSet lib bytes of
              Inl err \<Rightarrow> Err err
            | Inr files \<Rightarrow>
                if 0 < length files then
                  (case NewFile lib (files ! 0) reg of
                     Inl err \<Rightarrow> Err err
                   | Inr fd \<Rightarrow>
                       (case RegisterFile lib reg fd of
                          Inl err \<Rightarrow> Err err
                        | Inr reg' \<Rightarrow> Ok reg'))
                else Panic (IndexOutOfRange 0 (length files)))))"

section \<open>\<^verbatim>\<open>main\<close>\<close>

text \<open>
  The flags after \<^verbatim>\<open>flag.Parse()\<close>. \<open>inlineData\<close> is the variable \<^verbatim>\<open>data\<close> of
  \<^verbatim>\<open>main\<close>; \<open>receiverNum\<close> is a Go \<^verbatim>\<open>int\<close>, taken at its 64-bit width.
\<close>

datatype config =
  Config (pbFile: string) (msgName: string) (inlineData: string) (srcFile: string)
    (dstFile: string) (receiverNum: "64 word") (writerName: string) (marshalerName: string)
    (fieldsParam: string) (dataField: string)

text \<open>\<^verbatim>\<open>strings.Split(s, sep)\<close> for a separator of one character.\<close>

fun Split :: "string \<Rightarrow> char \<Rightarrow> string list" where
  "Split [] sep = [[]]"
| "Split (c # cs) sep =
     (if c = sep then [] # Split cs sep
      else (case Split cs sep of
              w # ws \<Rightarrow> (c # w) # ws
            | [] \<Rightarrow> [[c]]))"

text \<open>
  Lines 203 to 215: the loop leaves with \<^verbatim>\<open>hasDataField = true\<close> at the first name equal
  to \<^verbatim>\<open>dataField\<close> and panics at an empty name met before it; after the loop a
  \<^verbatim>\<open>hasDataField\<close> still false panics. \<open>None\<close> is the normal way out.
\<close>

fun hasDataField :: "string list \<Rightarrow> string \<Rightarrow> error option" where
  "hasDataField [] name = Some (DataFieldNotInFields name)"
| "hasDataField (v # vs) name =
     (if v = name then None
      else if 0 = length v then Some EmptyFieldName
      else hasDataField vs name)"

text \<open>
  A channel with its capacity, its buffered elements and its closed flag.
  \<^verbatim>\<open>make(chan *Data, n)\<close> panics with \<^verbatim>\<open>makechan: size out of range\<close> for a negative
  \<open>n\<close> and for an \<open>n\<close> beyond the runtime's limit; below the limit the allocation is
  taken to succeed.
\<close>

datatype 'a chan =
  Chan (capacity: nat) (buffer: "'a list") (closed: bool)

definition make_chan :: "nat \<Rightarrow> 64 word \<Rightarrow> Data chan outcome" where
  "make_chan limit n =
     (if n <s 0 \<or> limit < nat (sint n) then Panic MakeSizeOutOfRange
      else Ok (Chan (nat (sint n)) [] False))"

text \<open>
  A send while no other goroutine exists: it completes when the buffer has room, and
  otherwise blocks for ever (\<open>None\<close>), which the Go runtime ends with its deadlock error.
\<close>

definition sendAlone :: "'a chan \<Rightarrow> 'a \<Rightarrow> 'a chan option" where
  "sendAlone ch x =
     (if length (buffer ch) < capacity ch
      then Some (Chan (capacity ch) (buffer ch @ [x]) (closed ch))
      else None)"

fun sendAllAlone :: "'a chan \<Rightarrow> 'a list \<Rightarrow> 'a chan option" where
  "sendAllAlone ch [] = Some ch"
| "sendAllAlone ch (x # xs) =
     (case sendAlone ch x of
        None \<Rightarrow> None
      | Some ch' \<Rightarrow> sendAllAlone ch' xs)"

definition close :: "'a chan \<Rightarrow> 'a chan" where
  "close ch = Chan (capacity ch) (buffer ch) True"

text \<open>The two writers behind the \<^verbatim>\<open>Writer\<close> interface, and the file system they use.\<close>

datatype 'f filesystem =
  FileSystem (Create: "string \<Rightarrow> error + 'f") (WriteFile: "'f \<Rightarrow> byte list \<Rightarrow> 'f \<times> error option")

datatype 'f writer =
    ConsoleWriter "byte list"
  | FileWriterOf "'f FileWriter"

fun writer_Write :: "'f filesystem \<Rightarrow> 'f writer \<Rightarrow> byte list \<Rightarrow> 'f writer \<times> error option" where
  "writer_Write fs (ConsoleWriter stdout) bytes =
     (case ConsoleWriter_Write stdout bytes of (stdout', res) \<Rightarrow> (ConsoleWriter stdout', res))"
| "writer_Write fs (FileWriterOf w) bytes =
     (case FileWriter_Write (WriteFile fs) w bytes of (w', res) \<Rightarrow> (FileWriterOf w', res))"

text \<open>\<^verbatim>\<open>FileWriter.OpenFile\<close> (\<^verbatim>\<open>os.Create\<close>) and lines 230 to 240.\<close>

definition selectWriter :: "'f filesystem \<Rightarrow> config \<Rightarrow> io_event list \<times> (error + 'f writer)" where
  "selectWriter fs cfg =
     (if ''console'' = writerName cfg then ([], Inr (ConsoleWriter []))
      else if ''file'' = writerName cfg then
        ([IoCreate (dstFile cfg)],
         (case Create fs (dstFile cfg) of
            Inl err \<Rightarrow> Inl err
          | Inr f \<Rightarrow> Inr (FileWriterOf (FileWriter False f))))
      else ([], Inl (InvalidWriterName (writerName cfg))))"

datatype exit_status =
    PanicError error
  | PanicRuntime runtime_panic
  | Deadlock

datatype ('reg, 'f) pipeline =
  Pipeline (registry: 'reg) (fields: "string list") (dataList: "Data chan")
    (sink: "'f writer")

text \<open>
  Lines 201 to 246, from \<^verbatim>\<open>strings.Split\<close> to the choice of the marshaler: the accesses
  to the file system made so far, and either the panic that ends the process or the
  pipeline ready to stream.
\<close>

definition main_setup ::
  "('pb, 'fd, 'reg) library \<Rightarrow> 'f filesystem \<Rightarrow> config \<Rightarrow> 'reg
     \<Rightarrow> io_event list \<times> (exit_status + ('reg, 'f) pipeline)" where
  "main_setup lib fs cfg reg =
     (let fieldNames = Split (fieldsParam cfg) CHR '','' in
      case hasDataField fieldNames (dataField cfg) of
        Some err \<Rightarrow> ([], Inl (PanicError err))
      | None \<Rightarrow>
          (case registerPbFile lib reg (pbFile cfg) of
             (io1, Panic p) \<Rightarrow> (io1, Inl (PanicRuntime p))
           | (io1, Err err) \<Rightarrow> (io1, Inl (PanicError err))
           | (io1, Ok reg') \<Rightarrow>
               if receiverNum cfg \<le>s 0
               then (io1, Inl (PanicError ReceiverCountNotPositive))
               else
                 (case make_chan (MakeChanLimit lib) (receiverNum cfg * 2) of
                    Panic p \<Rightarrow> (io1, Inl (PanicRuntime p))
                  | Err err \<Rightarrow> (io1, Inl (PanicError err))
                  | Ok ch \<Rightarrow>
                      (case selectWriter fs cfg of
                         (io2, Inl err) \<Rightarrow> (io1 @ io2, Inl (PanicError err))
                       | (io2, Inr w) \<Rightarrow>
                           if ''json'' = marshalerName cfg
                           then (io1 @ io2, Inr (Pipeline reg' fieldNames ch w))
                           else (io1 @ io2,
                                 Inl (PanicError (InvalidMarshalerName (marshalerName cfg))))))))"

text \<open>
  Lines 261 to 267, the branch for an empty \<^verbatim>\<open>srcFile\<close>: \<^verbatim>\<open>main\<close> itself runs
  \<^verbatim>\<open>ReadData\<close> on the inline text and closes the channel, before the loop of line 269
  starts the first worker. No goroutine receives while \<^verbatim>\<open>ReadData\<close> sends.
\<close>

definition inlineProducer ::
  "('pb, 'fd, 'reg) library \<Rightarrow> config \<Rightarrow> ('reg, 'f) pipeline \<Rightarrow> exit_status + ('reg, 'f) pipeline" where
  "inlineProducer lib cfg p =
     (case ReadData (CsvRead lib (inlineData cfg)) (fields p) of
        (sent, res) \<Rightarrow>
          (case sendAllAlone (dataList p) sent of
             None \<Rightarrow> Inl Deadlock
           | Some ch \<Rightarrow>
               (case res of
                  Some err \<Rightarrow> Inl (PanicError err)
                | None \<Rightarrow> Inr (Pipeline (registry p) (fields p) (close ch) (sink p)))))"

text \<open>
  \<^verbatim>\<open>main\<close> up to line 269, where the workers are started. With a source file the producer
  is a goroutine of its own that runs beside the workers (\<open>ProducerStarted\<close>); with inline
  text the channel is filled and closed first (\<open>ProducerDone\<close>).
\<close>

datatype ('reg, 'f) streaming =
    ProducerStarted "('reg, 'f) pipeline"
  | ProducerDone "('reg, 'f) pipeline"

definition main_until_workers ::
  "('pb, 'fd, 'reg) library \<Rightarrow> 'f filesystem \<Rightarrow> config \<Rightarrow> 'reg
     \<Rightarrow> io_event list \<times> (exit_status + ('reg, 'f) streaming)" where
  "main_until_workers lib fs cfg reg =
     (case main_setup lib fs cfg reg of
        (io, Inl ex) \<Rightarrow> (io, Inl ex)
      | (io, Inr p) \<Rightarrow>
          if 0 \<noteq> length (srcFile cfg) then (io, Inr (ProducerStarted p))
          else (case inlineProducer lib cfg p of
                  Inl ex \<Rightarrow> (io, Inl ex)
                | Inr p' \<Rightarrow> (io, Inr (ProducerDone p'))))"

text \<open>
  The body of a worker's loop, lines 275 to 286, for one \<^verbatim>\<open>Data\<close> taken from the
  channel. The type assertion \<^verbatim>\<open>.(string)\<close> panics on a value that is no string.
\<close>

definition workerBody ::
  "('pb, 'fd, 'reg) library \<Rightarrow> 'f filesystem \<Rightarrow> config \<Rightarrow> 'reg \<Rightarrow> 'f writer \<Rightarrow> Data
     \<Rightarrow> 'f writer \<times> exit_status option" where
  "workerBody lib fs cfg reg w d =
     (case Data_data d (dataField cfg) of
        Some (GoScalar (StringValue text)) \<Rightarrow>
          (case parseData lib reg text (msgName cfg) of
             Panic p \<Rightarrow> (w, Some (PanicRuntime p))
           | Err err \<Rightarrow> (w, Some (PanicError err))
           | Ok msg \<Rightarrow>
               (case JsonMarshal lib ((Data_data d)(dataField cfg \<mapsto> StringMap msg)) of
                  Inl err \<Rightarrow> (w, Some (PanicError err))
                | Inr bytes \<Rightarrow>
                    (case writer_Write fs w bytes of
                       (w', Some err) \<Rightarrow> (w', Some (PanicError err))
                     | (w', None) \<Rightarrow> (w', None))))
      | _ \<Rightarrow> (w, Some (PanicRuntime InterfaceConversion)))"

section \<open>The wire format, and the decoder for repeated varint fields\<close>

text \<open>
  \<^verbatim>\<open>protowire\<close>: a varint is at most ten bytes, seven bits each, least significant group
  first, the top bit set on all bytes but the last, and must fit 64 bits. A record on the
  wire is a tag, the varint \<open>8 * number + type\<close>, followed by the value that the wire
  type announces: a varint (0), eight bytes (1), a length and that many bytes (2), four
  bytes (5). The group types (3 and 4) are not modelled.
\<close>

fun consumeVarint :: "nat \<Rightarrow> byte list \<Rightarrow> (nat \<times> byte list) option" where
  "consumeVarint more [] = None"
| "consumeVarint more (b # bs) =
     (if unat b < 128 then Some (unat b, bs)
      else if more = 0 then None
      else (case consumeVarint (more - 1) bs of
              None \<Rightarrow> None
            | Some (v, rest) \<Rightarrow> Some (unat b - 128 + 128 * v, rest)))"

definition ConsumeVarint :: "byte list \<Rightarrow> (nat \<times> byte list) option" where
  "ConsumeVarint bs =
     (case consumeVarint 9 bs of
        None \<Rightarrow> None
      | Some (v, rest) \<Rightarrow> if v < 2 ^ 64 then Some (v, rest) else None)"

datatype wire_value =
    VarintType nat
  | Fixed32Type "byte list"
  | Fixed64Type "byte list"
  | BytesType "byte list"

datatype field_scan =
    FieldMalformed
  | FieldGroup
  | Field nat wire_value "byte list"

definition ConsumeField :: "byte list \<Rightarrow> field_scan" where
  "ConsumeField bs =
     (case ConsumeVarint bs of
        None \<Rightarrow> FieldMalformed
      | Some (tag, r1) \<Rightarrow>
          (let num = tag div 8; wtyp = tag mod 8 in
           if num < 1 \<or> 536870911 < num then FieldMalformed
           else if wtyp = 0 then
             (case ConsumeVarint r1 of
                None \<Rightarrow> FieldMalformed
              | Some (v, r2) \<Rightarrow> Field num (VarintType v) r2)
           else if wtyp = 1 then
             (if length r1 < 8 then FieldMalformed
              else Field num (Fixed64Type (take 8 r1)) (drop 8 r1))
           else if wtyp = 2 then
             (case ConsumeVarint r1 of
                None \<Rightarrow> FieldMalformed
              | Some (len, r2) \<Rightarrow>
                  if length r2 < len then FieldMalformed
                  else Field num (BytesType (take len r2)) (drop len r2))
           else if wtyp = 5 then
             (if length r1 < 4 then FieldMalformed
              else Field num (Fixed32Type (take 4 r1)) (drop 4 r1))
           else if wtyp = 3 \<or> wtyp = 4 then FieldGroup
           else FieldMalformed))"

datatype wire_scan =
    Malformed
  | HasGroups
  | Records "(nat \<times> wire_value) list"

text \<open>
  The records of a message in the order of the wire. Every record takes at least one
  byte, so as many rounds as there are bytes suffice.
\<close>

fun scanRecords :: "nat \<Rightarrow> byte list \<Rightarrow> wire_scan" where
  "scanRecords rounds [] = Records []"
| "scanRecords 0 (b # bs) = Malformed"
| "scanRecords (Suc rounds) (b # bs) =
     (case ConsumeField (b # bs) of
        FieldMalformed \<Rightarrow> Malformed
      | FieldGroup \<Rightarrow> HasGroups
      | Field num v rest \<Rightarrow>
          (case scanRecords rounds rest of
             Records rs \<Rightarrow> Records ((num, v) # rs)
           | Malformed \<Rightarrow> Malformed
           | HasGroups \<Rightarrow> HasGroups))"

definition wireRecords :: "byte list \<Rightarrow> wire_scan" where
  "wireRecords bs = scanRecords (length bs) bs"

text \<open>The numbers of the fields present on the wire, in the order of the wire.\<close>

definition fieldsOnWire :: "byte list \<Rightarrow> nat list" where
  "fieldsOnWire bs =
     (case wireRecords bs of
        Records rs \<Rightarrow> map fst rs
      | Malformed \<Rightarrow> []
      | HasGroups \<Rightarrow> [])"


definition varintScalar :: "kind \<Rightarrow> nat \<Rightarrow> scalar" where
  "varintScalar k v =
     (if k = Int32Kind then Int32Value (of_nat v)
      else if k = Uint32Kind then Uint32Value (of_nat v)
      else if k = Uint64Kind then Uint64Value (of_nat v)
      else Int64Value (of_nat v))"

fun packedVarints :: "nat \<Rightarrow> byte list \<Rightarrow> nat list option" where
  "packedVarints rounds [] = Some []"
| "packedVarints 0 (b # bs) = None"
| "packedVarints (Suc rounds) (b # bs) =
     (case ConsumeVarint (b # bs) of
        None \<Rightarrow> None
      | Some (v, rest) \<Rightarrow>
          (case packedVarints rounds rest of
             None \<Rightarrow> None
           | Some vs \<Rightarrow> Some (v # vs)))"

fun elementsOf :: "kind \<Rightarrow> wire_value \<Rightarrow> pvalue list option" where
  "elementsOf k (VarintType v) = Some [ScalarV (varintScalar k v)]"
| "elementsOf k (BytesType buf) =
     (case packedVarints (length buf) buf of
        None \<Rightarrow> None
      | Some vs \<Rightarrow> Some (map (\<lambda>v. ScalarV (varintScalar k v)) vs))"
| "elementsOf k (Fixed32Type buf) = Some []"
| "elementsOf k (Fixed64Type buf) = Some []"

fun listElements :: "fieldDescriptor \<Rightarrow> (nat \<times> wire_value) list \<Rightarrow> pvalue list option" where
  "listElements f [] = Some []"
| "listElements f ((num, v) # rs) =
     (if num = Number f then
        (case elementsOf (Kind f) v of
           None \<Rightarrow> None
         | Some es \<Rightarrow>
             (case listElements f rs of
                None \<Rightarrow> None
              | Some more \<Rightarrow> Some (es @ more)))
      else listElements f rs)"

definition parsedList :: "fieldDescriptor \<Rightarrow> (nat \<times> wire_value) list \<Rightarrow> pvalue list" where
  "parsedList f rs = (case listElements f rs of None \<Rightarrow> [] | Some xs \<Rightarrow> xs)"

definition decodedMessage :: "(nat \<times> wire_value) list \<Rightarrow> message" where
  "decodedMessage rs = Message (\<lambda>f. parsedList f rs \<noteq> []) (\<lambda>f. ListV (parsedList f rs))"


section \<open>Predicates used in the statements\<close>

text \<open>
  A message built against its descriptor holds a list in every populated list field:
  \<^verbatim>\<open>Value.List()\<close> does not panic on it.
\<close>

definition listsAreLists :: "message \<Rightarrow> fieldDescriptor list \<Rightarrow> bool" where
  "listsAreLists msg fds =
     (\<forall>f\<in>set fds. Has msg f \<and> IsList f \<longrightarrow> (\<exists>xs. Get msg f = ListV xs))"

text \<open>What one round of the loop of \<^verbatim>\<open>convertToMap\<close> stores for a populated field.\<close>

definition emitted :: "message \<Rightarrow> fieldDescriptor \<Rightarrow> iface" where
  "emitted msg f =
     (if IsList f
      then (case Get msg f of
              ListV xs \<Rightarrow> InterfaceSlice (map Interface xs)
            | v \<Rightarrow> Interface v)
      else Interface (Get msg f))"

text \<open>The value stored under a key of the result of \<^verbatim>\<open>convertToMap\<close>, if it returned one.\<close>

definition lookupField :: "(string \<rightharpoonup> iface) outcome \<Rightarrow> string \<Rightarrow> iface option" where
  "lookupField r k = (case r of Ok m \<Rightarrow> m k | Err e \<Rightarrow> None | Panic p \<Rightarrow> None)"

text \<open>
  A read that yields a record with at least as many columns as there are field names,
  and the \<^verbatim>\<open>Data\<close> values that \<^verbatim>\<open>ReadData\<close> sends for a run of such reads when its
  counter stands at \<open>count\<close>.
\<close>

definition enoughColumns :: "string list \<Rightarrow> read_result \<Rightarrow> bool" where
  "enoughColumns fieldNames r =
     (case recordsOf r of
        Some records \<Rightarrow> length fieldNames \<le> length records
      | None \<Rightarrow> False)"

fun sentFor :: "string list \<Rightarrow> 32 word \<Rightarrow> read_result list \<Rightarrow> Data list" where
  "sentFor fieldNames count [] = []"
| "sentFor fieldNames count (r # rs) =
     (case recordsOf r of
        Some records \<Rightarrow>
          Data (count + 1) (bindColumns fieldNames records) # sentFor fieldNames (count + 1) rs
      | None \<Rightarrow> sentFor fieldNames (count + 1) rs)"

section \<open>An example schema, library and configuration\<close>

text \<open>
  \<^verbatim>\<open>pkg.Person{name: string = 1, address: pkg.Address = 2, tags: repeated string = 3,
  age: int32 = 4}\<close> and \<^verbatim>\<open>pkg.Address{city: string = 1}\<close>, with a parsed person whose
  \<^verbatim>\<open>age\<close> is absent.
\<close>

definition cityField :: fieldDescriptor where
  "cityField = FieldDescriptor ''city'' 1 False StringKind"

definition addressDesc :: messageDescriptor where
  "addressDesc = MessageDescriptor ''pkg.Address'' [cityField]"

definition addressMsg :: message where
  "addressMsg = Message (\<lambda>f. Number f = 1) (\<lambda>f. ScalarV (StringValue ''Oslo''))"

definition nameField :: fieldDescriptor where
  "nameField = FieldDescriptor ''name'' 1 False StringKind"

definition addressField :: fieldDescriptor where
  "addressField = FieldDescriptor ''address'' 2 False MessageKind"

definition tagsField :: fieldDescriptor where
  "tagsField = FieldDescriptor ''tags'' 3 True StringKind"

definition ageField :: fieldDescriptor where
  "ageField = FieldDescriptor ''age'' 4 False Int32Kind"

definition personDesc :: messageDescriptor where
  "personDesc = MessageDescriptor ''pkg.Person'' [nameField, addressField, tagsField, ageField]"

definition personMsg :: message where
  "personMsg = Message (\<lambda>f. Number f \<in> {1, 2, 3})
     (\<lambda>f. if Number f = 1 then ScalarV (StringValue ''Alice'')
          else if Number f = 2 then MessageV addressMsg
          else if Number f = 3 then ListV [ScalarV (StringValue ''b''), ScalarV (StringValue ''a'')]
          else ScalarV (Int32Value 0))"

text \<open>
  A library for the examples. The file \<^verbatim>\<open>schema.pb\<close> holds one file entry with the two
  messages, the file \<^verbatim>\<open>empty.pb\<close> has no bytes and deserialises to a descriptor set with
  no file entry. The registry is the list of registered messages. The reader of delimited
  text handles unquoted text: one row for each non-empty line, columns separated by commas.
  The limit on the capacity of a channel is that of a 64-bit Linux: \<open>2 ^ 48 - 96\<close> bytes
  for elements of 8 bytes.
\<close>

definition exampleFind :: "messageDescriptor list \<Rightarrow> string \<Rightarrow> error + descriptor" where
  "exampleFind reg name =
     (case find (\<lambda>d. FullName d = name) reg of
        Some d \<Rightarrow> Inr (MessageDesc d)
      | None \<Rightarrow> Inl NotFoundError)"

definition exampleCsv :: "string \<Rightarrow> read_result list" where
  "exampleCsv text =
     map (\<lambda>l. Row (Split l CHR '','')) (filter (\<lambda>l. l \<noteq> []) (Split text (CHR 0x0A)))"

definition exampleLib ::
  "(messageDescriptor list, messageDescriptor list, messageDescriptor list) library" where
  "exampleLib = Library
     (\<lambda>filename. if filename = ''schema.pb'' then Inr [10]
                  else if filename = ''empty.pb'' then Inr []
                  else Inl ReadFileError)
     (\<lambda>bytes. if bytes = [] then Inr [] else Inr [[personDesc, addressDesc]])
     (\<lambda>pb reg. Inr pb)
     (\<lambda>reg fd. Inr (reg @ fd))
     exampleFind
     (\<lambda>bytes d. Inr personMsg)
     (\<lambda>m. Inr [123, 125])
     exampleCsv
     (\<lambda>filename. Inl OpenFileError)
     35184372088820"

text \<open>
  A file system whose files have a quota: a write that does not fit fails and writes
  nothing.
\<close>

definition quotaWrite :: "byte list \<times> nat \<Rightarrow> byte list \<Rightarrow> (byte list \<times> nat) \<times> error option" where
  "quotaWrite f bytes =
     (if length bytes \<le> snd f then ((fst f @ bytes, snd f - length bytes), None)
      else (f, Some WriteFileError))"

definition exampleFs :: "(byte list \<times> nat) filesystem" where
  "exampleFs = FileSystem (\<lambda>filename. Inr ([], 3)) quotaWrite"




definition exampleConfig :: "64 word \<Rightarrow> string \<Rightarrow> string \<Rightarrow> config" where
  "exampleConfig recv fieldList inline =
     Config ''schema.pb'' ''pkg.Person'' inline [] [] recv ''console'' ''json'' fieldList ''data''"

section \<open>Properties of the hex normaliser\<close>

text \<open>
  \<^verbatim>\<open>parseData\<close> sizes \<^verbatim>\<open>binary\<close> so that \<^verbatim>\<open>Decode\<close> never writes outside it: one byte
  for each pair of characters of the source.
\<close>

lemma Decode_no_panic:
  "i + length src div 2 \<le> length dst \<Longrightarrow>
   \<exists>b n e. Decode dst src i = Decoded b n e \<and> length b = length dst"
  by (induction dst src i rule: Decode.induct) (auto split: option.splits)

lemma Decode_hex_even:
  "i + length src div 2 \<le> length dst \<Longrightarrow> even (length src) \<Longrightarrow>
   \<forall>c\<in>set src. fromHexChar c \<noteq> None \<Longrightarrow>
   \<exists>b. Decode dst src i = Decoded b (i + length src div 2) None \<and> length b = length dst"
  by (induction dst src i rule: Decode.induct) (auto split: option.splits)

lemma Decode_odd:
  "i + length src div 2 \<le> length dst \<Longrightarrow> odd (length src) \<Longrightarrow>
   \<exists>b n e. Decode dst src i = Decoded b n (Some e)"
  by (induction dst src i rule: Decode.induct) (auto split: option.splits)

lemma hasRadixMarker_cases:
  "hasRadixMarker data =
     (if data = [] then Panic (IndexOutOfRange 0 0)
      else if data = ''0'' then Panic (IndexOutOfRange 1 1)
      else Ok (2 \<le> length data \<and> data ! 0 = CHR ''0'' \<and>
               (data ! 1 = CHR ''x'' \<or> data ! 1 = CHR ''X'')))"
  by (cases data; cases "tl data") (auto simp: hasRadixMarker_def)

lemma make_bytes_marked:
  assumes "2 \<le> length data"
  shows "make_bytes (int (length data) div 2 - 1) = Ok (replicate (length data div 2 - 1) 0)"
proof -
  from assms have "int (length data) div 2 - 1 = int (length data div 2 - 1)"
    by (simp add: zdiv_int of_nat_diff)
  then show ?thesis by (simp add: make_bytes_def)
qed

lemma make_bytes_plain:
  "make_bytes (int (length data) div 2) = Ok (replicate (length data div 2) 0)"
proof -
  have "int (length data) div 2 = int (length data div 2)"
    by (simp add: zdiv_int)
  then show ?thesis by (simp add: make_bytes_def)
qed

lemma parseData_binary_marked:
  assumes "hasRadixMarker data = Ok True"
  shows "parseData_binary data =
     (case Decode (replicate (length data div 2 - 1) 0) (drop 2 data) 0 of
        DecodePanic p \<Rightarrow> Panic p
      | Decoded binary pos (Some err) \<Rightarrow>
          Err (HexError pos err (length data) (data ! (length data - 1)))
      | Decoded binary pos None \<Rightarrow> Ok binary)"
proof -
  from assms have "2 \<le> length data"
    by (auto simp: hasRadixMarker_cases split: if_splits)
  from make_bytes_marked[OF this] assms show ?thesis
    by (simp add: parseData_binary_def)
qed

lemma parseData_binary_plain:
  assumes "hasRadixMarker data = Ok False"
  shows "parseData_binary data =
     (case Decode (replicate (length data div 2) 0) data 0 of
        DecodePanic p \<Rightarrow> Panic p
      | Decoded binary pos (Some err) \<Rightarrow>
          Err (HexError pos err (length data) (data ! (length data - 1)))
      | Decoded binary pos None \<Rightarrow> Ok binary)"
  using assms make_bytes_plain[of data] by (simp add: parseData_binary_def)

text \<open>
  The parts of the normaliser's contract that hold for every text: a marked text of even
  length whose remainder consists of hex digits gives \<open>length div 2 - 1\<close> bytes, an unmarked
  one gives \<open>length div 2\<close> bytes, and a text of odd length other than \<open>''0''\<close> gives a
  returned error.
\<close>

lemma parseData_binary_marked_even:
  assumes m: "hasRadixMarker data = Ok True"
    and ev: "even (length data)"
    and hex: "\<forall>c\<in>set (drop 2 data). fromHexChar c \<noteq> None"
  shows "\<exists>b. parseData_binary data = Ok b \<and> length b = length data div 2 - 1"
proof -
  from m have len: "2 \<le> length data"
    by (auto simp: hasRadixMarker_cases split: if_splits)
  then have fit: "0 + length (drop 2 data) div 2 \<le> length (replicate (length data div 2 - 1) (0::byte))"
    by simp
  from ev len have "even (length (drop 2 data))" by simp
  from Decode_hex_even[OF fit this hex] show ?thesis
    by (auto simp: parseData_binary_marked[OF m])
qed

lemma parseData_binary_plain_even:
  assumes m: "hasRadixMarker data = Ok False"
    and ev: "even (length data)"
    and hex: "\<forall>c\<in>set data. fromHexChar c \<noteq> None"
  shows "\<exists>b. parseData_binary data = Ok b \<and> length b = length data div 2"
proof -
  have fit: "0 + length data div 2 \<le> length (replicate (length data div 2) (0::byte))"
    by simp
  from Decode_hex_even[OF fit ev hex] show ?thesis
    by (auto simp: parseData_binary_plain[OF m])
qed

lemma parseData_binary_odd:
  assumes od: "odd (length data)" and ne: "data \<noteq> ''0''"
  shows "\<exists>pos err. parseData_binary data =
           Err (HexError pos err (length data) (data ! (length data - 1)))"
proof -
  from od have "data \<noteq> []" by auto
  with ne obtain m where m: "hasRadixMarker data = Ok m"
    by (simp add: hasRadixMarker_cases)
  show ?thesis
  proof (cases m)
    case True
    with m have mt: "hasRadixMarker data = Ok True" by simp
    then have len: "2 \<le> length data"
      by (auto simp: hasRadixMarker_cases split: if_splits)
    then have fit: "0 + length (drop 2 data) div 2 \<le> length (replicate (length data div 2 - 1) (0::byte))"
      by simp
    from od len have "odd (length (drop 2 data))" by simp
    from Decode_odd[OF fit this] show ?thesis
      by (auto simp: parseData_binary_marked[OF mt])
  next
    case False
    with m have mf: "hasRadixMarker data = Ok False" by simp
    have fit: "0 + length data div 2 \<le> length (replicate (length data div 2) (0::byte))"
      by simp
    from Decode_odd[OF fit od] show ?thesis
      by (auto simp: parseData_binary_plain[OF mf])
  qed
qed

text \<open>
  Claim C3. The normaliser is to answer every text of odd length with a returned error and
  every unmarked text of even length with \<open>length div 2\<close> bytes. The code reads
  \<^verbatim>\<open>data[0]\<close>, and \<^verbatim>\<open>data[1]\<close> after a leading \<^verbatim>\<open>'0'\<close>, before it looks at the length:
  on the one-character text \<open>''0''\<close> (odd length) and on the empty text (even length, no
  marker) it panics with an index out of range instead.
\<close>

theorem parseData_binary_short_text_panics:
  "parseData_binary ''0'' = Panic (IndexOutOfRange 1 1) \<and>
   parseData_binary [] = Panic (IndexOutOfRange 0 0)"
  by (simp add: parseData_binary_def hasRadixMarker_def)

text \<open>
  Claim C9, as stated: every text of length 0 or 1 makes the normaliser panic. The text
  \<open>''a''\<close> has length 1 and gets a returned error: \<^verbatim>\<open>&&\<close> does not read \<^verbatim>\<open>data[1]\<close>
  when \<^verbatim>\<open>data[0]\<close> is not \<^verbatim>\<open>'0'\<close>.
\<close>

theorem parseData_binary_one_char_returns_error:
  "length ''a'' = 1 \<and> parseData_binary ''a'' = Err (HexError 0 ErrLength 1 CHR ''a'')"
  by (simp add: parseData_binary_def hasRadixMarker_def make_bytes_def fromHexChar_def)

text \<open>
  Claim C9, amended: the normaliser panics on exactly two texts, the empty text and the
  one-character text \<open>''0''\<close>; on every other text (of length 1 or more) it returns, with
  bytes or with an error.
\<close>

theorem parseData_binary_panics_iff:
  "(\<exists>p. parseData_binary data = Panic p) \<longleftrightarrow> data = [] \<or> data = ''0''"
proof (cases "data = [] \<or> data = ''0''")
  case True
  then show ?thesis by (auto simp: parseData_binary_def hasRadixMarker_cases)
next
  case False
  then obtain m where m: "hasRadixMarker data = Ok m"
    by (simp add: hasRadixMarker_cases)
  show ?thesis
  proof (cases m)
    case True
    with m have mt: "hasRadixMarker data = Ok True" by simp
    then have "2 \<le> length data"
      by (auto simp: hasRadixMarker_cases split: if_splits)
    then have "0 + length (drop 2 data) div 2 \<le> length (replicate (length data div 2 - 1) (0::byte))"
      by simp
    from Decode_no_panic[OF this] obtain b n e where
      "Decode (replicate (length data div 2 - 1) 0) (drop 2 data) 0 = Decoded b n e" by blast
    with False show ?thesis
      by (cases e) (simp_all add: parseData_binary_marked[OF mt])
  next
    case F: False
    with m have mf: "hasRadixMarker data = Ok False" by simp
    have "0 + length data div 2 \<le> length (replicate (length data div 2) (0::byte))"
      by simp
    from Decode_no_panic[OF this] obtain b n e where
      "Decode (replicate (length data div 2) 0) data 0 = Decoded b n e" by blast
    with False show ?thesis
      by (cases e) (simp_all add: parseData_binary_plain[OF mf])
  qed
qed

section \<open>Properties of \<^verbatim>\<open>convertToMap\<close>\<close>

lemma listInterfaces_take:
  "n \<le> length v \<Longrightarrow>
   foldl (\<lambda>list j. list @ [Interface (v ! j)]) acc [0..<n] = acc @ map Interface (take n v)"
proof (induction n)
  case 0
  then show ?case by simp
next
  case (Suc n)
  then show ?case by (simp add: take_Suc_conv_app_nth)
qed

lemma listInterfaces_map: "listInterfaces v = map Interface v"
  using listInterfaces_take[of "length v" v "[]"] by (simp add: listInterfaces_def)

lemma convertField_Ok:
  assumes "Has msg f \<and> IsList f \<longrightarrow> (\<exists>xs. Get msg f = ListV xs)"
  shows "convertField msg f acc =
           Ok (if Has msg f then acc(Name f \<mapsto> emitted msg f) else acc)"
  using assms by (auto simp: convertField_def emitted_def listInterfaces_map)

lemma listsAreLists_Cons:
  "listsAreLists msg (f # fs) \<Longrightarrow>
   (Has msg f \<and> IsList f \<longrightarrow> (\<exists>xs. Get msg f = ListV xs)) \<and> listsAreLists msg fs"
  by (auto simp: listsAreLists_def)

lemma convertFields_step:
  assumes "listsAreLists msg (f # fs)"
  shows "convertFields msg (f # fs) acc =
           convertFields msg fs (if Has msg f then acc(Name f \<mapsto> emitted msg f) else acc)"
  using listsAreLists_Cons[OF assms] by (simp add: convertField_Ok)

lemma convertFields_total:
  "listsAreLists msg fs \<Longrightarrow> \<exists>r. convertFields msg fs acc = Ok r"
proof (induction fs arbitrary: acc)
  case Nil
  then show ?case by simp
next
  case (Cons f fs)
  from listsAreLists_Cons[OF Cons.prems] have "listsAreLists msg fs" by simp
  from Cons.IH[OF this] show ?case by (simp add: convertFields_step[OF Cons.prems] del: convertFields.simps)
qed

lemma convertFields_dom:
  "listsAreLists msg fs \<Longrightarrow> convertFields msg fs acc = Ok r \<Longrightarrow>
   dom r = dom acc \<union> Name ` {f \<in> set fs. Has msg f}"
proof (induction fs arbitrary: acc)
  case Nil
  then show ?case by simp
next
  case (Cons f fs)
  from listsAreLists_Cons[OF Cons.prems(1)] have rest: "listsAreLists msg fs" by simp
  from Cons.prems(2)
  have "convertFields msg fs (if Has msg f then acc(Name f \<mapsto> emitted msg f) else acc) = Ok r"
    by (simp add: convertFields_step[OF Cons.prems(1)] del: convertFields.simps)
  from Cons.IH[OF rest this] show ?case by auto
qed

lemma convertFields_absent:
  "listsAreLists msg fs \<Longrightarrow> convertFields msg fs acc = Ok r \<Longrightarrow>
   k \<notin> Name ` {f \<in> set fs. Has msg f} \<Longrightarrow> r k = acc k"
proof (induction fs arbitrary: acc)
  case Nil
  then show ?case by simp
next
  case (Cons f fs)
  from listsAreLists_Cons[OF Cons.prems(1)] have rest: "listsAreLists msg fs" by simp
  from Cons.prems(2)
  have run: "convertFields msg fs (if Has msg f then acc(Name f \<mapsto> emitted msg f) else acc) = Ok r"
    by (simp add: convertFields_step[OF Cons.prems(1)] del: convertFields.simps)
  have k1: "k \<notin> Name ` {f \<in> set fs. Has msg f}" and k2: "Has msg f \<longrightarrow> k \<noteq> Name f"
    using Cons.prems(3) by auto
  from Cons.IH[OF rest run k1] k2 show ?case by auto
qed

lemma convertFields_value:
  "listsAreLists msg fs \<Longrightarrow> distinct (map Name fs) \<Longrightarrow> convertFields msg fs acc = Ok r \<Longrightarrow>
   f \<in> set fs \<Longrightarrow> Has msg f \<Longrightarrow> r (Name f) = Some (emitted msg f)"
proof (induction fs arbitrary: acc)
  case Nil
  then show ?case by simp
next
  case (Cons g fs)
  from listsAreLists_Cons[OF Cons.prems(1)] have rest: "listsAreLists msg fs" by simp
  let ?acc = "if Has msg g then acc(Name g \<mapsto> emitted msg g) else acc"
  from Cons.prems(3) have run: "convertFields msg fs ?acc = Ok r"
    by (simp add: convertFields_step[OF Cons.prems(1)] del: convertFields.simps)
  from Cons.prems(2) have dist: "distinct (map Name fs)" and fresh: "Name g \<notin> Name ` set fs"
    by auto
  show ?case
  proof (cases "f = g")
    case True
    from fresh have "Name g \<notin> Name ` {f \<in> set fs. Has msg f}" by auto
    from convertFields_absent[OF rest run this] True Cons.prems(5) show ?thesis by simp
  next
    case False
    with Cons.prems(4) have "f \<in> set fs" by simp
    from Cons.IH[OF rest dist run this Cons.prems(5)] show ?thesis .
  qed
qed

lemma listsAreLists_person: "listsAreLists personMsg (Fields personDesc)"
  by (simp add: listsAreLists_def personDesc_def personMsg_def nameField_def addressField_def
      tagsField_def ageField_def)

lemma distinct_person: "distinct (map Name (Fields personDesc))"
  by (simp add: personDesc_def nameField_def addressField_def tagsField_def ageField_def)

lemma present_person:
  "Name ` {f \<in> set (Fields personDesc). Has personMsg f} = {''name'', ''address'', ''tags''}"
  unfolding set_filter[symmetric]
  by (simp add: personDesc_def personMsg_def nameField_def addressField_def
      tagsField_def ageField_def)

text \<open>
  For a message whose populated list fields hold lists and a descriptor whose field names
  are distinct, \<^verbatim>\<open>convertToMap\<close> returns a map whose keys are exactly the names of the
  fields the parsed message has (\<^verbatim>\<open>msg.Has\<close>): a field that is not populated gets no key
  and so no placeholder. Under the name of every populated list field stands the slice of
  the elements' native values, in the order of the list.
\<close>

lemma convertToMap_populated_fields:
  assumes wt: "listsAreLists msg (Fields d)" and dist: "distinct (map Name (Fields d))"
  shows "\<exists>result. convertToMap d msg = Ok result \<and>
           dom result = Name ` {f \<in> set (Fields d). Has msg f} \<and>
           (\<forall>f\<in>set (Fields d). \<forall>xs. Has msg f \<and> IsList f \<and> Get msg f = ListV xs \<longrightarrow>
              result (Name f) = Some (InterfaceSlice (map Interface xs)))"
proof -
  from convertFields_total[OF wt] obtain r where r: "convertFields msg (Fields d) Map.empty = Ok r"
    by blast
  have d: "dom r = Name ` {f \<in> set (Fields d). Has msg f}"
    using convertFields_dom[OF wt r] by simp
  have v: "r (Name f) = Some (InterfaceSlice (map Interface xs))"
    if "f \<in> set (Fields d)" "Has msg f" "IsList f" "Get msg f = ListV xs" for f xs
    using convertFields_value[OF wt dist r that(1) that(2)] that(3) that(4)
    by (simp add: emitted_def)
  from r d v show ?thesis by (auto simp: convertToMap_def)
qed

lemma convertToMap_populated_fields_person:
  "listsAreLists personMsg (Fields personDesc) \<and> distinct (map Name (Fields personDesc)) \<and>
   (\<exists>result. convertToMap personDesc personMsg = Ok result \<and>
      dom result = {''name'', ''address'', ''tags''} \<and>
      result ''tags'' =
        Some (InterfaceSlice [GoScalar (StringValue ''b''), GoScalar (StringValue ''a'')]))"
proof -
  from convertToMap_populated_fields[OF listsAreLists_person distinct_person]
  obtain result where r: "convertToMap personDesc personMsg = Ok result"
    and d: "dom result = Name ` {f \<in> set (Fields personDesc). Has personMsg f}"
    and v: "\<forall>f\<in>set (Fields personDesc). \<forall>xs.
              Has personMsg f \<and> IsList f \<and> Get personMsg f = ListV xs \<longrightarrow>
              result (Name f) = Some (InterfaceSlice (map Interface xs))"
    by blast
  have "tagsField \<in> set (Fields personDesc)" by (simp add: personDesc_def)
  moreover have "Has personMsg tagsField \<and> IsList tagsField \<and>
      Get personMsg tagsField = ListV [ScalarV (StringValue ''b''), ScalarV (StringValue ''a'')]"
    by (simp add: personMsg_def tagsField_def)
  ultimately have "result (Name tagsField) =
      Some (InterfaceSlice (map Interface [ScalarV (StringValue ''b''), ScalarV (StringValue ''a'')]))"
    using v by blast
  then have t: "result ''tags'' =
      Some (InterfaceSlice [GoScalar (StringValue ''b''), GoScalar (StringValue ''a'')])"
    by (simp add: tagsField_def)
  from r d t present_person listsAreLists_person distinct_person show ?thesis by simp
qed

text \<open>
  Claim C1, as stated: a singular field of message kind is emitted as a nested map built
  by the same flattening. In the example the field \<^verbatim>\<open>address\<close> of the person is of
  message kind and singular; \<^verbatim>\<open>convertToMap\<close> stores the \<^verbatim>\<open>protoreflect.Message\<close>
  object itself under its name, not the map that \<^verbatim>\<open>convertToMap\<close> gives for the address.
\<close>

theorem convertToMap_nested_message_not_flattened:
  "Kind addressField = MessageKind \<and> \<not> IsList addressField \<and>
   lookupField (convertToMap personDesc personMsg) ''address'' = Some (ProtoMessage addressMsg) \<and>
   lookupField (convertToMap addressDesc addressMsg) ''city'' = Some (GoScalar (StringValue ''Oslo'')) \<and>
   lookupField (convertToMap personDesc personMsg) ''address''
     \<noteq> Some (StringMap (\<lambda>k. lookupField (convertToMap addressDesc addressMsg) k))"
  by (simp add: lookupField_def convertToMap_def convertField_def personDesc_def personMsg_def
      nameField_def addressField_def tagsField_def ageField_def listInterfaces_def
      addressDesc_def cityField_def addressMsg_def)

text \<open>
  Claim C1, amended: \<^verbatim>\<open>convertToMap\<close> makes one pass over the fields of the top-level
  message and does not descend. For a populated singular field that holds a message, the
  value stored under the field's name is that message object (\<^verbatim>\<open>Value.Interface()\<close>),
  un-flattened.
\<close>

theorem convertToMap_message_field_is_raw:
  assumes wt: "listsAreLists msg (Fields d)" and dist: "distinct (map Name (Fields d))"
    and f: "f \<in> set (Fields d)" and has: "Has msg f" and single: "\<not> IsList f"
    and child: "Get msg f = MessageV child"
  shows "\<exists>result. convertToMap d msg = Ok result \<and> result (Name f) = Some (ProtoMessage child)"
proof -
  from convertFields_total[OF wt] obtain r where r: "convertFields msg (Fields d) Map.empty = Ok r"
    by blast
  from convertFields_value[OF wt dist r f has] single child
  have "r (Name f) = Some (ProtoMessage child)" by (simp add: emitted_def)
  with r show ?thesis by (simp add: convertToMap_def)
qed

theorem convertToMap_message_field_is_raw_witness:
  "listsAreLists personMsg (Fields personDesc) \<and> distinct (map Name (Fields personDesc)) \<and>
   addressField \<in> set (Fields personDesc) \<and> Has personMsg addressField \<and>
   \<not> IsList addressField \<and> Get personMsg addressField = MessageV addressMsg \<and>
   (\<exists>result. convertToMap personDesc personMsg = Ok result \<and>
      result ''address'' = Some (ProtoMessage addressMsg))"
proof -
  have f: "addressField \<in> set (Fields personDesc)" by (simp add: personDesc_def)
  have has: "Has personMsg addressField" by (simp add: personMsg_def addressField_def)
  have single: "\<not> IsList addressField" by (simp add: addressField_def)
  have child: "Get personMsg addressField = MessageV addressMsg"
    by (simp add: personMsg_def addressField_def)
  from convertToMap_message_field_is_raw[OF listsAreLists_person distinct_person f has single child]
  have "\<exists>result. convertToMap personDesc personMsg = Ok result \<and>
      result ''address'' = Some (ProtoMessage addressMsg)"
    by (simp add: addressField_def)
  with listsAreLists_person distinct_person f has single child show ?thesis by simp
qed

section \<open>Properties of \<^verbatim>\<open>FileWriter.Write\<close>\<close>

text \<open>
  Once the record has been written, \<^verbatim>\<open>Write\<close> returns \<^verbatim>\<open>nil\<close> whatever the write of
  the newline returns: line 135 is \<^verbatim>\<open>return nil\<close> under \<^verbatim>\<open>nil != err\<close>.
\<close>

lemma FileWriter_Write_after_record:
  "write (osFile w) bytes = (f1, None) \<Longrightarrow> snd (FileWriter_Write write w bytes) = None"
  by (simp add: FileWriter_Write_def Lock_def split: prod.splits option.splits)

lemma FileWriter_Write_record_error:
  "write (osFile w) bytes = (f1, Some err) \<Longrightarrow>
   FileWriter_Write write w bytes = (FileWriter False f1, Some err)"
  by (simp add: FileWriter_Write_def Lock_def Unlock_def)

text \<open>
  Claim C5. \<^verbatim>\<open>Write\<close> is to return a non-nil error whenever the write of the record or
  of the newline fails. On a file with room for three more bytes the record \<open>[1, 2, 3]\<close>
  is written, the write of the newline fails, and \<^verbatim>\<open>Write\<close> returns \<^verbatim>\<open>nil\<close>, leaving
  the record without its terminator.
\<close>

theorem FileWriter_Write_newline_failure_returns_nil:
  "quotaWrite ([1, 2, 3], 0) [10] = (([1, 2, 3], 0), Some WriteFileError) \<and>
   FileWriter_Write quotaWrite (FileWriter False ([], 3)) [1, 2, 3] =
     (FileWriter False ([1, 2, 3], 0), None)"
  by (simp add: FileWriter_Write_def Lock_def Unlock_def quotaWrite_def)

section \<open>Properties of \<^verbatim>\<open>registerPbFile\<close>\<close>

text \<open>
  Claim C10. When the file can be read and deserialises to a descriptor set without file
  entries, \<^verbatim>\<open>set.GetFile()[0]\<close> is an index out of range: \<^verbatim>\<open>registerPbFile\<close> panics
  and returns no error.
\<close>

theorem registerPbFile_empty_set_panics:
  assumes "ReadFile lib filename = Inr bytes" and "UnmarshalSet lib bytes = Inr []"
  shows "registerPbFile lib reg filename = ([IoReadFile filename], Panic (IndexOutOfRange 0 0))"
  using assms by (simp add: registerPbFile_def)

theorem registerPbFile_empty_set_panics_witness:
  "ReadFile exampleLib ''empty.pb'' = Inr [] \<and> UnmarshalSet exampleLib [] = Inr [] \<and>
   registerPbFile exampleLib [] ''empty.pb'' =
     ([IoReadFile ''empty.pb''], Panic (IndexOutOfRange 0 0))"
proof -
  have r: "ReadFile exampleLib ''empty.pb'' = Inr []" by (simp add: exampleLib_def)
  have u: "UnmarshalSet exampleLib [] = Inr []" by (simp add: exampleLib_def)
  from registerPbFile_empty_set_panics[OF r u, of "[]"] r u show ?thesis by simp
qed

section \<open>Properties of \<^verbatim>\<open>main\<close>\<close>

lemma hasDataField_None_member: "hasDataField vs name = None \<Longrightarrow> name \<in> set vs"
  by (induction vs) (auto split: if_splits)

lemma hasDataField_absent: "name \<notin> set vs \<Longrightarrow> \<exists>err. hasDataField vs name = Some err"
  using hasDataField_None_member[of vs name] by (cases "hasDataField vs name") auto

lemma registerPbFile_events: "fst (registerPbFile lib reg filename) = [IoReadFile filename]"
  by (simp add: registerPbFile_def)

lemma example_register:
  "registerPbFile exampleLib [] ''schema.pb'' = ([IoReadFile ''schema.pb''], Ok [personDesc, addressDesc])"
  by (simp add: registerPbFile_def exampleLib_def)

lemma example_fields_id_data: "Split ''id,data'' CHR '','' = [''id'', ''data'']"
  by simp

text \<open>
  Claim C4, as stated: a worker count of zero is fatal before any I/O. With the field
  list \<^verbatim>\<open>id,data\<close> and \<^verbatim>\<open>-recv 0\<close> the schema file has been read (and registered) when
  \<^verbatim>\<open>main\<close> panics: the test of line 221 follows the call of line 217.
\<close>

theorem main_setup_worker_count_checked_after_schema_read:
  "receiverNum (exampleConfig 0 ''id,data'' ''1,0a00'') \<le>s 0 \<and>
   main_setup exampleLib exampleFs (exampleConfig 0 ''id,data'' ''1,0a00'') [] =
     ([IoReadFile ''schema.pb''], Inl (PanicError ReceiverCountNotPositive)) \<and>
   fst (main_setup exampleLib exampleFs (exampleConfig 0 ''id,data'' ''1,0a00'') []) \<noteq> []"
  by (simp add: main_setup_def exampleConfig_def example_register)

text \<open>
  Claim C4, amended. A payload field name that is not in the field list ends \<^verbatim>\<open>main\<close>
  before any access to the file system. A worker count of zero or less ends \<^verbatim>\<open>main\<close> too,
  after at most one access, the read of the schema file, and before the queue is made, the
  output file created or any input read; it is reported as such once the field list has
  passed and the schema has been registered.
\<close>

theorem main_setup_config_errors:
  "(dataField cfg \<notin> set (Split (fieldsParam cfg) CHR '','') \<longrightarrow>
      (\<exists>err. main_setup lib fs cfg reg = ([], Inl (PanicError err)))) \<and>
   (receiverNum cfg \<le>s 0 \<longrightarrow>
      (\<exists>ex. main_setup lib fs cfg reg = ([], Inl ex) \<or>
            main_setup lib fs cfg reg = ([IoReadFile (pbFile cfg)], Inl ex))) \<and>
   (receiverNum cfg \<le>s 0 \<and>
    hasDataField (Split (fieldsParam cfg) CHR '','') (dataField cfg) = None \<and>
    snd (registerPbFile lib reg (pbFile cfg)) = Ok reg' \<longrightarrow>
      main_setup lib fs cfg reg =
        ([IoReadFile (pbFile cfg)], Inl (PanicError ReceiverCountNotPositive)))"
proof (intro conjI impI)
  assume "dataField cfg \<notin> set (Split (fieldsParam cfg) CHR '','')"
  from hasDataField_absent[OF this] show "\<exists>err. main_setup lib fs cfg reg = ([], Inl (PanicError err))"
    by (auto simp: main_setup_def)
next
  assume neg: "receiverNum cfg \<le>s 0"
  obtain io1 res where reg1: "registerPbFile lib reg (pbFile cfg) = (io1, res)"
    by (cases "registerPbFile lib reg (pbFile cfg)")
  with registerPbFile_events[of lib reg "pbFile cfg"] have io1: "io1 = [IoReadFile (pbFile cfg)]"
    by simp
  show "\<exists>ex. main_setup lib fs cfg reg = ([], Inl ex) \<or>
            main_setup lib fs cfg reg = ([IoReadFile (pbFile cfg)], Inl ex)"
  proof (cases "hasDataField (Split (fieldsParam cfg) CHR '','') (dataField cfg)")
    case (Some err)
    then show ?thesis by (simp add: main_setup_def)
  next
    case None
    with neg reg1 io1 show ?thesis
      by (cases res) (simp_all add: main_setup_def)
  qed
next
  assume a: "receiverNum cfg \<le>s 0 \<and>
    hasDataField (Split (fieldsParam cfg) CHR '','') (dataField cfg) = None \<and>
    snd (registerPbFile lib reg (pbFile cfg)) = Ok reg'"
  then have "registerPbFile lib reg (pbFile cfg) = ([IoReadFile (pbFile cfg)], Ok reg')"
    using registerPbFile_events[of lib reg "pbFile cfg"]
    by (cases "registerPbFile lib reg (pbFile cfg)") simp
  with a show "main_setup lib fs cfg reg =
        ([IoReadFile (pbFile cfg)], Inl (PanicError ReceiverCountNotPositive))"
    by (simp add: main_setup_def)
qed

theorem main_setup_config_errors_witness:
  "dataField (exampleConfig 3 ''id,payload'' ''1,0a00'')
     \<notin> set (Split (fieldsParam (exampleConfig 3 ''id,payload'' ''1,0a00'')) CHR '','') \<and>
   main_setup exampleLib exampleFs (exampleConfig 3 ''id,payload'' ''1,0a00'') [] =
     ([], Inl (PanicError (DataFieldNotInFields ''data''))) \<and>
   receiverNum (exampleConfig (- 1) ''id,data'' ''1,0a00'') \<le>s 0 \<and>
   hasDataField (Split (fieldsParam (exampleConfig (- 1) ''id,data'' ''1,0a00'')) CHR '','')
     (dataField (exampleConfig (- 1) ''id,data'' ''1,0a00'')) = None \<and>
   snd (registerPbFile exampleLib [] (pbFile (exampleConfig (- 1) ''id,data'' ''1,0a00'')))
     = Ok [personDesc, addressDesc] \<and>
   main_setup exampleLib exampleFs (exampleConfig (- 1) ''id,data'' ''1,0a00'') [] =
     ([IoReadFile ''schema.pb''], Inl (PanicError ReceiverCountNotPositive))"
proof -
  let ?bad = "exampleConfig 3 ''id,payload'' ''1,0a00''"
  let ?neg = "exampleConfig (- 1) ''id,data'' ''1,0a00''"
  have h1: "dataField ?bad \<notin> set (Split (fieldsParam ?bad) CHR '','')"
    by (simp add: exampleConfig_def)
  have h2: "receiverNum ?neg \<le>s 0" by (simp add: exampleConfig_def)
  have h3: "hasDataField (Split (fieldsParam ?neg) CHR '','') (dataField ?neg) = None"
    by (simp add: exampleConfig_def)
  have h4: "snd (registerPbFile exampleLib [] (pbFile ?neg)) = Ok [personDesc, addressDesc]"
    by (simp add: exampleConfig_def example_register)
  from main_setup_config_errors[of ?bad exampleLib exampleFs "[]"] h1
  have "\<exists>err. main_setup exampleLib exampleFs ?bad [] = ([], Inl (PanicError err))" by blast
  moreover have "hasDataField (Split (fieldsParam ?bad) CHR '','') (dataField ?bad)
      = Some (DataFieldNotInFields ''data'')"
    by (simp add: exampleConfig_def)
  ultimately have c1: "main_setup exampleLib exampleFs ?bad [] =
      ([], Inl (PanicError (DataFieldNotInFields ''data'')))"
    by (simp add: main_setup_def)
  from main_setup_config_errors[of ?neg exampleLib exampleFs "[]" "[personDesc, addressDesc]"] h2 h3 h4
  have c2: "main_setup exampleLib exampleFs ?neg [] =
      ([IoReadFile (pbFile ?neg)], Inl (PanicError ReceiverCountNotPositive))" by blast
  have "pbFile ?neg = ''schema.pb''" by (simp add: exampleConfig_def)
  with h1 h2 h3 h4 c1 c2 show ?thesis by simp
qed

text \<open>
  The capacity handed to \<^verbatim>\<open>make\<close> is the product \<^verbatim>\<open>receiverNum*2\<close> in 64-bit
  arithmetic. From \<open>2 ^ 62\<close> on the product wraps around to a negative number.
\<close>

lemma sint_double_wrapped:
  fixes W :: "64 word"
  assumes "2 ^ 63 \<le> sint W * 2"
  shows "sint (W * 2) \<le> sint W * 2 - 18446744073709551616"
proof -
  have m: "sint (W * 2) = signed_take_bit 63 (sint W * 2)"
    by (simp add: sint_word_ariths)
  from signed_take_bit_int_less_eq[OF assms] show ?thesis
    unfolding m by simp
qed

lemma sint_double:
  fixes W :: "64 word"
  assumes pos: "\<not> W \<le>s 0" and nonneg: "\<not> W * 2 <s 0"
  shows "nat (sint (W * 2)) = 2 * nat (sint W)"
proof -
  from pos have s0: "0 < sint W" by (simp add: word_sle_eq)
  have s1: "sint W < 9223372036854775808" using sint_lt[of W] by simp
  from nonneg have nn: "0 \<le> sint (W * 2)" by (simp add: word_sless_alt)
  have small: "sint W * 2 < 2 ^ 63"
  proof (rule ccontr)
    assume "\<not> sint W * 2 < 2 ^ 63"
    then have "(2::int) ^ 63 \<le> sint W * 2" by simp
    from sint_double_wrapped[OF this] s1 nn show False by linarith
  qed
  have m: "sint (W * 2) = signed_take_bit 63 (sint W * 2)"
    by (simp add: sint_word_ariths)
  have "signed_take_bit 63 (sint W * 2) = sint W * 2"
    using s0 small by (intro signed_take_bit_int_eq_self) simp_all
  with m have "sint (W * 2) = sint W * 2" by simp
  with s0 show ?thesis by simp
qed

lemma double_overflow:
  fixes W :: "64 word"
  assumes "2 ^ 62 \<le> sint W"
  shows "W * 2 <s 0"
proof -
  have s1: "sint W < 9223372036854775808" using sint_lt[of W] by simp
  from assms have "(2::int) ^ 63 \<le> sint W * 2" by simp
  from sint_double_wrapped[OF this] s1 have "sint (W * 2) < 0" by linarith
  then show ?thesis by (simp add: word_sless_alt)
qed

lemma sint_double_small:
  fixes W :: "64 word"
  assumes pos: "0 <s W" and small: "sint W < 2 ^ 62"
  shows "\<not> W * 2 <s 0 \<and> nat (sint (W * 2)) = 2 * nat (sint W)"
proof -
  from pos have s0: "0 < sint W" by (simp add: word_sless_alt)
  from small have lt: "sint W * 2 < 2 ^ 63" by simp
  have m: "sint (W * 2) = signed_take_bit 63 (sint W * 2)"
    by (simp add: sint_word_ariths)
  have "signed_take_bit 63 (sint W * 2) = sint W * 2"
    using s0 lt by (intro signed_take_bit_int_eq_self) simp_all
  with m have eq: "sint (W * 2) = sint W * 2" by simp
  with s0 have "0 \<le> sint (W * 2)" by simp
  then have "\<not> W * 2 <s 0" by (simp add: word_sless_alt)
  with eq s0 show ?thesis by simp
qed

lemma make_chan_double:
  fixes W :: "64 word"
  assumes "\<not> W \<le>s 0" and "make_chan limit (W * 2) = Ok ch"
  shows "ch = Chan (2 * nat (sint W)) [] False \<and> 2 * nat (sint W) \<le> limit"
proof -
  from assms(2) have nn: "\<not> W * 2 <s 0" and ch: "ch = Chan (nat (sint (W * 2))) [] False"
    and lim: "nat (sint (W * 2)) \<le> limit"
    by (auto simp: make_chan_def split: if_splits)
  from sint_double[OF assms(1) nn] ch lim show ?thesis by simp
qed

lemma make_chan_fits:
  fixes W :: "64 word"
  assumes "0 <s W" and "sint W < 2 ^ 62" and "2 * nat (sint W) \<le> limit"
  shows "make_chan limit (W * 2) = Ok (Chan (2 * nat (sint W)) [] False)"
  using sint_double_small[OF assms(1,2)] assms(3) by (simp add: make_chan_def)

lemma make_chan_overflow:
  fixes W :: "64 word"
  assumes "2 ^ 62 \<le> sint W"
  shows "make_chan limit (W * 2) = Panic MakeSizeOutOfRange"
  using double_overflow[OF assms] by (simp add: make_chan_def)

lemma make_chan_beyond_limit:
  fixes W :: "64 word"
  assumes "0 <s W" and "sint W < 2 ^ 62" and "limit < 2 * nat (sint W)"
  shows "make_chan limit (W * 2) = Panic MakeSizeOutOfRange"
  using sint_double_small[OF assms(1,2)] assms(3) by (simp add: make_chan_def)

lemma main_setup_Inr:
  assumes "main_setup lib fs cfg reg = (io, Inr p)"
  shows "\<not> receiverNum cfg \<le>s 0 \<and>
         make_chan (MakeChanLimit lib) (receiverNum cfg * 2) = Ok (dataList p)"
  using assms
  by (auto simp: main_setup_def Let_def
      split: option.splits prod.splits outcome.splits sum.splits if_splits)

text \<open>
  Whenever \<^verbatim>\<open>main\<close> gets as far as the pipeline, the worker count \<open>W\<close> is positive and
  the queue is the empty, open channel of capacity \<open>2 * W\<close>.
\<close>

lemma main_setup_pipeline_capacity:
  assumes "main_setup lib fs cfg reg = (io, Inr p)"
  shows "0 <s receiverNum cfg \<and>
         dataList p = Chan (2 * nat (sint (receiverNum cfg))) [] False"
proof -
  from main_setup_Inr[OF assms]
  have pos: "\<not> receiverNum cfg \<le>s 0"
    and mk: "make_chan (MakeChanLimit lib) (receiverNum cfg * 2) = Ok (dataList p)"
    by simp_all
  from pos have "0 <s receiverNum cfg" by (simp add: word_sle_eq word_sless_alt)
  with make_chan_double[OF pos mk] show ?thesis by simp
qed

lemma example_limit: "MakeChanLimit exampleLib = 35184372088820"
  by (simp add: exampleLib_def)

text \<open>
  Claim C7, as stated: every positive worker count gets a queue of twice its size. The
  worker count \<open>2 ^ 62\<close> is positive; its double wraps around to \<open>- 2 ^ 63\<close>, \<^verbatim>\<open>make\<close>
  panics, and there is no queue.
\<close>

theorem main_setup_no_queue_for_huge_worker_count:
  "0 <s (4611686018427387904 :: 64 word) \<and>
   main_setup exampleLib exampleFs (exampleConfig 4611686018427387904 ''id,data'' ''1,0a00'') [] =
     ([IoReadFile ''schema.pb''], Inl (PanicRuntime MakeSizeOutOfRange))"
  by (simp add: main_setup_def exampleConfig_def example_register make_chan_def
      word_sle_eq word_sless_alt)

text \<open>
  Claim C7, amended. For a positive worker count \<open>W\<close> below \<open>2 ^ 62\<close> whose double does
  not exceed the runtime's limit on the capacity of a channel, \<^verbatim>\<open>make\<close> returns the
  empty, open queue of capacity exactly \<open>2 * W\<close>, and \<^verbatim>\<open>main\<close>, when the field list has
  passed, the schema is registered and the writer and the marshaler are chosen, goes on
  with that queue.
\<close>

theorem main_setup_creates_queue:
  assumes pos: "0 <s receiverNum cfg"
    and small: "sint (receiverNum cfg) < 2 ^ 62"
    and fit: "2 * nat (sint (receiverNum cfg)) \<le> MakeChanLimit lib"
    and flds: "hasDataField (Split (fieldsParam cfg) CHR '','') (dataField cfg) = None"
    and rg: "snd (registerPbFile lib reg (pbFile cfg)) = Ok reg'"
    and wr: "selectWriter fs cfg = (io2, Inr w)"
    and ms: "marshalerName cfg = ''json''"
  shows "make_chan (MakeChanLimit lib) (receiverNum cfg * 2) =
           Ok (Chan (2 * nat (sint (receiverNum cfg))) [] False) \<and>
         main_setup lib fs cfg reg =
           (IoReadFile (pbFile cfg) # io2,
            Inr (Pipeline reg' (Split (fieldsParam cfg) CHR '','')
                  (Chan (2 * nat (sint (receiverNum cfg))) [] False) w))"
proof -
  have mk: "make_chan (MakeChanLimit lib) (receiverNum cfg * 2) =
      Ok (Chan (2 * nat (sint (receiverNum cfg))) [] False)"
    by (rule make_chan_fits[OF pos small fit])
  from rg have r: "registerPbFile lib reg (pbFile cfg) = ([IoReadFile (pbFile cfg)], Ok reg')"
    using registerPbFile_events[of lib reg "pbFile cfg"]
    by (cases "registerPbFile lib reg (pbFile cfg)") simp
  from pos have np: "\<not> receiverNum cfg \<le>s 0" by (simp add: word_sle_eq word_sless_alt)
  from flds r np mk wr ms show ?thesis by (simp add: main_setup_def)
qed

theorem main_setup_creates_queue_witness:
  "0 <s receiverNum (exampleConfig 3 ''id,data'' ''1,0a00'') \<and>
   sint (receiverNum (exampleConfig 3 ''id,data'' ''1,0a00'')) < 2 ^ 62 \<and>
   2 * nat (sint (receiverNum (exampleConfig 3 ''id,data'' ''1,0a00''))) \<le> MakeChanLimit exampleLib \<and>
   hasDataField (Split (fieldsParam (exampleConfig 3 ''id,data'' ''1,0a00'')) CHR '','')
     (dataField (exampleConfig 3 ''id,data'' ''1,0a00'')) = None \<and>
   snd (registerPbFile exampleLib [] (pbFile (exampleConfig 3 ''id,data'' ''1,0a00'')))
     = Ok [personDesc, addressDesc] \<and>
   selectWriter exampleFs (exampleConfig 3 ''id,data'' ''1,0a00'') = ([], Inr (ConsoleWriter [])) \<and>
   marshalerName (exampleConfig 3 ''id,data'' ''1,0a00'') = ''json'' \<and>
   main_setup exampleLib exampleFs (exampleConfig 3 ''id,data'' ''1,0a00'') [] =
     ([IoReadFile ''schema.pb''],
      Inr (Pipeline [personDesc, addressDesc] [''id'', ''data''] (Chan 6 [] False) (ConsoleWriter [])))"
proof -
  let ?cfg = "exampleConfig 3 ''id,data'' ''1,0a00''"
  have h1: "0 <s receiverNum ?cfg" by (simp add: exampleConfig_def word_sless_alt)
  have h2: "sint (receiverNum ?cfg) < 2 ^ 62" by (simp add: exampleConfig_def)
  have h3: "2 * nat (sint (receiverNum ?cfg)) \<le> MakeChanLimit exampleLib"
    by (simp add: exampleConfig_def example_limit)
  have h4: "hasDataField (Split (fieldsParam ?cfg) CHR '','') (dataField ?cfg) = None"
    by (simp add: exampleConfig_def)
  have h5: "snd (registerPbFile exampleLib [] (pbFile ?cfg)) = Ok [personDesc, addressDesc]"
    by (simp add: exampleConfig_def example_register)
  have h6: "selectWriter exampleFs ?cfg = ([], Inr (ConsoleWriter []))"
    by (simp add: exampleConfig_def selectWriter_def)
  have h7: "marshalerName ?cfg = ''json''" by (simp add: exampleConfig_def)
  from main_setup_creates_queue[OF h1 h2 h3 h4 h5 h6 h7]
  have "main_setup exampleLib exampleFs ?cfg [] =
     ([IoReadFile ''schema.pb''],
      Inr (Pipeline [personDesc, addressDesc] [''id'', ''data''] (Chan 6 [] False) (ConsoleWriter [])))"
    by (simp add: exampleConfig_def)
  with h1 h2 h3 h4 h5 h6 h7 show ?thesis by simp
qed

section \<open>The inline producer\<close>

lemma sendAllAlone_blocks:
  "capacity ch - length (buffer ch) < length xs \<Longrightarrow> sendAllAlone ch xs = None"
proof (induction xs arbitrary: ch)
  case Nil
  then show ?case by simp
next
  case (Cons x xs)
  show ?case
  proof (cases "length (buffer ch) < capacity ch")
    case True
    let ?ch = "Chan (capacity ch) (buffer ch @ [x]) (closed ch)"
    from Cons.prems True have "capacity ?ch - length (buffer ?ch) < length xs" by simp
    from Cons.IH[OF this] True show ?thesis by (simp add: sendAlone_def)
  next
    case False
    then show ?thesis by (simp add: sendAlone_def)
  qed
qed

lemma sendAllAlone_fits:
  "length xs \<le> capacity ch - length (buffer ch) \<Longrightarrow>
   sendAllAlone ch xs = Some (Chan (capacity ch) (buffer ch @ xs) (closed ch))"
proof (induction xs arbitrary: ch)
  case Nil
  then show ?case by simp
next
  case (Cons x xs)
  let ?ch = "Chan (capacity ch) (buffer ch @ [x]) (closed ch)"
  from Cons.prems have room: "length (buffer ch) < capacity ch"
    and "length xs \<le> capacity ?ch - length (buffer ?ch)" by simp_all
  from Cons.IH[OF this(2)] room show ?case by (simp add: sendAlone_def)
qed

text \<open>
  With inline text, \<^verbatim>\<open>ReadData\<close> sends while no worker exists. When it has more to send
  than the queue holds, \<^verbatim>\<open>main\<close> blocks in the send for ever.
\<close>

lemma inlineProducer_deadlock:
  assumes "capacity (dataList p) - length (buffer (dataList p))
             < length (fst (ReadData (CsvRead lib (inlineData cfg)) (fields p)))"
  shows "inlineProducer lib cfg p = Inl Deadlock"
  using sendAllAlone_blocks[OF assms]
  by (cases "ReadData (CsvRead lib (inlineData cfg)) (fields p)") (simp add: inlineProducer_def)

lemma example_setup_one_worker:
  "main_setup exampleLib exampleFs (exampleConfig 1 ''data'' inline) [] =
     ([IoReadFile ''schema.pb''],
      Inr (Pipeline [personDesc, addressDesc] [''data''] (Chan 2 [] False) (ConsoleWriter [])))"
  by (simp add: main_setup_def exampleConfig_def example_register make_chan_def
      example_limit word_sle_eq word_sless_alt selectWriter_def)

lemma example_three_rows:
  "ReadData (exampleCsv ''0a00\<newline>0a00\<newline>0a00'') [''data''] =
     ([Data 1 (bindColumns [''data''] [''0a00'']), Data 2 (bindColumns [''data''] [''0a00'']),
       Data 3 (bindColumns [''data''] [''0a00''])], None)"
  by (simp add: ReadData_def exampleCsv_def)

lemma example_CsvRead: "CsvRead exampleLib = exampleCsv"
  by (simp add: exampleLib_def)

text \<open>
  Claim C8. Three valid rows given as inline text and one worker: the queue holds two
  records, the third send blocks \<^verbatim>\<open>main\<close> before the loop of line 269 has started a
  worker, and the process ends in the runtime's deadlock error without an output line.
  With a source file the producer is a goroutine beside the workers instead.
\<close>

theorem main_inline_three_rows_one_worker_deadlocks:
  "ReadData (exampleCsv ''0a00\<newline>0a00\<newline>0a00'') [''data''] =
     ([Data 1 (bindColumns [''data''] [''0a00'']), Data 2 (bindColumns [''data''] [''0a00'']),
       Data 3 (bindColumns [''data''] [''0a00''])], None) \<and>
   main_until_workers exampleLib exampleFs
     (exampleConfig 1 ''data'' ''0a00\<newline>0a00\<newline>0a00'') [] =
     ([IoReadFile ''schema.pb''], Inl Deadlock)"
proof -
  let ?text = "''0a00\<newline>0a00\<newline>0a00''"
  let ?p = "Pipeline [personDesc, addressDesc] [''data''] (Chan 2 [] False)
              (ConsoleWriter [] :: (byte list \<times> nat) writer)"
  have cfg: "inlineData (exampleConfig 1 ''data'' ?text) = ?text"
    "srcFile (exampleConfig 1 ''data'' ?text) = []"
    by (simp_all add: exampleConfig_def)
  have three: "length (fst (ReadData (exampleCsv ?text) [''data''])) = 3"
    by (simp add: example_three_rows)
  have "inlineProducer exampleLib (exampleConfig 1 ''data'' ?text) ?p = Inl Deadlock"
    by (rule inlineProducer_deadlock) (simp add: cfg example_CsvRead three)
  then have "main_until_workers exampleLib exampleFs (exampleConfig 1 ''data'' ?text) [] =
     ([IoReadFile ''schema.pb''], Inl Deadlock)"
    by (simp add: main_until_workers_def example_setup_one_worker cfg)
  with example_three_rows show ?thesis by simp
qed

section \<open>Properties of \<^verbatim>\<open>ReadData\<close>\<close>

lemma ReadData_loop_prefix:
  "\<forall>r\<in>set good. enoughColumns fieldNames r \<Longrightarrow>
   ReadData_loop (good @ rest) fieldNames count =
     (sentFor fieldNames count good
        @ fst (ReadData_loop rest fieldNames (count + of_nat (length good))),
      snd (ReadData_loop rest fieldNames (count + of_nat (length good))))"
proof (induction good arbitrary: count)
  case Nil
  then show ?case by simp
next
  case (Cons r good)
  from Cons.prems obtain records where r: "recordsOf r = Some records"
    and enough: "length fieldNames \<le> length records"
    by (auto simp: enoughColumns_def split: option.splits)
  from Cons.prems have "\<forall>r\<in>set good. enoughColumns fieldNames r" by simp
  from Cons.IH[OF this, of "count + 1"] r enough show ?case
    by (simp add: Let_def add.assoc split: prod.splits)
qed

lemma length_sentFor:
  "\<forall>r\<in>set good. enoughColumns fieldNames r \<Longrightarrow> length (sentFor fieldNames count good) = length good"
  by (induction good arbitrary: count) (auto simp: enoughColumns_def split: option.splits)

lemma sentFor_nth:
  "\<forall>r\<in>set good. enoughColumns fieldNames r \<Longrightarrow> j < length good \<Longrightarrow>
   \<exists>records. recordsOf (good ! j) = Some records \<and>
     sentFor fieldNames count good ! j = Data (count + of_nat (j + 1)) (bindColumns fieldNames records)"
proof (induction good arbitrary: count j)
  case Nil
  then show ?case by simp
next
  case (Cons r good)
  from Cons.prems(1) obtain records where r: "recordsOf r = Some records"
    by (auto simp: enoughColumns_def split: option.splits)
  from Cons.prems(1) have rest: "\<forall>r\<in>set good. enoughColumns fieldNames r" by simp
  show ?case
  proof (cases j)
    case 0
    with r show ?thesis by simp
  next
    case (Suc k)
    with Cons.prems(2) have "k < length good" by simp
    from Cons.IH[OF rest this, of "count + 1"] r Suc show ?thesis
      by (simp add: add.assoc)
  qed
qed

lemma ReadData_loop_short:
  "recordsOf r = Some short \<Longrightarrow> length short < length fieldNames \<Longrightarrow>
   ReadData_loop (r # rest) fieldNames count = ([], Some (NotEnoughFieldData (count + 1)))"
  by (simp add: Let_def)

lemma ReadData_first_short_row:
  assumes i: "i < length reads"
    and good: "\<forall>r\<in>set (take i reads). enoughColumns fieldNames r"
    and short: "recordsOf (reads ! i) = Some short" "length short < length fieldNames"
  shows "ReadData reads fieldNames =
           (sentFor fieldNames 0 (take i reads), Some (NotEnoughFieldData (of_nat (i + 1))))"
proof -
  from i have split: "reads = take i reads @ reads ! i # drop (Suc i) reads"
    by (simp add: id_take_nth_drop)
  from i have len: "length (take i reads) = i" by simp
  have "ReadData_loop (take i reads @ reads ! i # drop (Suc i) reads) fieldNames 0 =
          (sentFor fieldNames 0 (take i reads), Some (NotEnoughFieldData (of_nat (i + 1))))"
    unfolding ReadData_loop_prefix[OF good] len ReadData_loop_short[OF short]
    by simp
  with split show ?thesis by (simp add: ReadData_def)
qed

text \<open>
  Claim C6, as stated: the error names the short row's 1-based position. The counter is a
  \<^verbatim>\<open>uint32\<close>. With the field names \<^verbatim>\<open>id,data\<close>, a stream of \<open>4294967295\<close> rows of two
  columns followed by a row of one column (which the reader hands over together with its
  field-count error) has its short row at position \<open>4294967296\<close>, and the error names
  line \<open>0\<close>.
\<close>

theorem ReadData_line_number_wraps:
  "length (replicate 4294967295 (Row [''1'', ''0a00''])) + 1 = 4294967296 \<and>
   snd (ReadData (replicate 4294967295 (Row [''1'', ''0a00'']) @ [RowWithError [''2'']])
         [''id'', ''data''])
     = Some (NotEnoughFieldData 0)"
proof -
  let ?good = "replicate 4294967295 (Row [''1'', ''0a00''])"
  have good: "\<forall>r\<in>set ?good. enoughColumns [''id'', ''data''] r"
    by (simp add: enoughColumns_def)
  have len: "length ?good = 4294967295" by simp
  have "snd (ReadData_loop (?good @ [RowWithError [''2'']]) [''id'', ''data''] 0)
      = Some (NotEnoughFieldData 0)"
    unfolding ReadData_loop_prefix[OF good] len by simp
  then show ?thesis by (simp add: ReadData_def)
qed

text \<open>
  Claim C6, amended. When row \<open>i + 1\<close> is the first row with fewer columns than field
  names and every read before it gave a record, \<^verbatim>\<open>ReadData\<close> returns the error that
  names line \<open>i + 1\<close> in the 32-bit counter (the number \<open>i + 1\<close> itself as long as it is
  below \<open>2 ^ 32\<close>), having sent exactly the \<open>i\<close> records of the rows before, numbered from
  1: nothing is sent for the short row or for any row after it.
\<close>

theorem ReadData_short_row_fatal:
  assumes i: "i < length reads"
    and good: "\<forall>r\<in>set (take i reads). enoughColumns fieldNames r"
    and short: "recordsOf (reads ! i) = Some short" "length short < length fieldNames"
  shows "\<exists>sent. ReadData reads fieldNames = (sent, Some (NotEnoughFieldData (of_nat (i + 1)))) \<and>
           length sent = i \<and>
           (\<forall>j<i. \<exists>records. recordsOf (reads ! j) = Some records \<and>
              sent ! j = Data (of_nat (j + 1)) (bindColumns fieldNames records)) \<and>
           (i + 1 < 2 ^ 32 \<longrightarrow> unat (of_nat (i + 1) :: 32 word) = i + 1)"
proof -
  let ?sent = "sentFor fieldNames 0 (take i reads)"
  have run: "ReadData reads fieldNames = (?sent, Some (NotEnoughFieldData (of_nat (i + 1))))"
    by (rule ReadData_first_short_row[OF i good short])
  from i have len: "length ?sent = i" by (simp add: length_sentFor[OF good])
  have nth: "\<exists>records. recordsOf (reads ! j) = Some records \<and>
              ?sent ! j = Data (of_nat (j + 1)) (bindColumns fieldNames records)" if "j < i" for j
  proof -
    from that i have "j < length (take i reads)" by simp
    from sentFor_nth[OF good this, of 0] that show ?thesis by simp
  qed
  have "unat (of_nat (i + 1) :: 32 word) = i + 1" if "i + 1 < 2 ^ 32"
  proof -
    have "unat (of_nat (i + 1) :: 32 word) = (i + 1) mod 2 ^ LENGTH(32)"
      by (rule unat_of_nat)
    also from that have "\<dots> = i + 1" by simp
    finally show ?thesis .
  qed
  with run len nth show ?thesis by blast
qed

theorem ReadData_short_row_fatal_witness:
  "(1::nat) < length [Row [''1'', ''0a''], Row [''2''], Row [''3'', ''0b'']] \<and>
   enoughColumns [''id'', ''data''] (Row [''1'', ''0a'']) \<and>
   recordsOf ([Row [''1'', ''0a''], Row [''2''], Row [''3'', ''0b'']] ! 1) = Some [''2''] \<and>
   length [''2''] < length [''id'', ''data''] \<and>
   ReadData [Row [''1'', ''0a''], Row [''2''], Row [''3'', ''0b'']] [''id'', ''data''] =
     ([Data 1 (bindColumns [''id'', ''data''] [''1'', ''0a''])], Some (NotEnoughFieldData 2)) \<and>
   unat (2 :: 32 word) = 2"
proof -
  let ?reads = "[Row [''1'', ''0a''], Row [''2''], Row [''3'', ''0b'']]"
  have h1: "(1::nat) < length ?reads" by simp
  have h2: "\<forall>r\<in>set (take 1 ?reads). enoughColumns [''id'', ''data''] r"
    by (simp add: enoughColumns_def)
  have h3: "recordsOf (?reads ! 1) = Some [''2'']" by simp
  have h4: "length [''2''] < length [''id'', ''data'']" by simp
  from ReadData_short_row_fatal[OF h1 h2 h3 h4]
  obtain sent where run: "ReadData ?reads [''id'', ''data''] = (sent, Some (NotEnoughFieldData (of_nat (1 + 1))))"
    and len: "length sent = 1"
    and nth: "\<forall>j<1. \<exists>records. recordsOf (?reads ! j) = Some records \<and>
              sent ! j = Data (of_nat (j + 1)) (bindColumns [''id'', ''data''] records)"
    by blast
  from nth have "sent ! 0 = Data 1 (bindColumns [''id'', ''data''] [''1'', ''0a''])" by simp
  with len have "sent = [Data 1 (bindColumns [''id'', ''data''] [''1'', ''0a''])]"
    by (cases sent) simp_all
  moreover have "enoughColumns [''id'', ''data''] (Row [''1'', ''0a''])"
    by (simp add: enoughColumns_def)
  ultimately show ?thesis using run h1 h3 h4 by simp
qed

section \<open>The normaliser inside \<^verbatim>\<open>parseData\<close> and the worker\<close>

text \<open>
  \<^verbatim>\<open>parseData\<close> ends as its first half does whenever that half does not return bytes,
  and a worker turns both a panic and a returned error into the end of the process.
\<close>

lemma parseData_panics:
  "parseData_binary text = Panic p \<Longrightarrow> parseData lib reg text name = Panic p"
  by (simp add: parseData_def)

lemma parseData_errors:
  "parseData_binary text = Err e \<Longrightarrow> parseData lib reg text name = Err e"
  by (simp add: parseData_def)

lemma workerBody_short_payload:
  assumes "Data_data d (dataField cfg) = Some (GoScalar (StringValue ''0''))"
  shows "workerBody lib fs cfg reg w d = (w, Some (PanicRuntime (IndexOutOfRange 1 1)))"
proof -
  have "parseData_binary ''0'' = Panic (IndexOutOfRange 1 1)"
    by (simp add: parseData_binary_def hasRadixMarker_def)
  from parseData_panics[OF this, of lib reg "msgName cfg"] assms show ?thesis
    by (simp add: workerBody_def)
qed

section \<open>The inline producer and the queue\<close>

text \<open>
  The boundary of the inline branch: what \<^verbatim>\<open>ReadData\<close> sends fits into the free part of
  the queue, and \<^verbatim>\<open>main\<close> goes on with the result of \<^verbatim>\<open>ReadData\<close>, or it does not, and
  \<^verbatim>\<open>main\<close> blocks (lemma \<open>inlineProducer_deadlock\<close>).
\<close>

lemma inlineProducer_fits:
  assumes run: "ReadData (CsvRead lib (inlineData cfg)) (fields p) = (sent, res)"
    and room: "length sent \<le> capacity (dataList p) - length (buffer (dataList p))"
  shows "inlineProducer lib cfg p =
           (case res of
              Some err \<Rightarrow> Inl (PanicError err)
            | None \<Rightarrow>
                Inr (Pipeline (registry p) (fields p)
                      (Chan (capacity (dataList p)) (buffer (dataList p) @ sent) True) (sink p)))"
  using sendAllAlone_fits[OF room] run
  by (simp add: inlineProducer_def close_def split: option.splits)

lemma inlineProducer_short_row:
  assumes i: "i < length (CsvRead lib (inlineData cfg))"
    and good: "\<forall>r\<in>set (take i (CsvRead lib (inlineData cfg))). enoughColumns (fields p) r"
    and short: "recordsOf (CsvRead lib (inlineData cfg) ! i) = Some short"
      "length short < length (fields p)"
    and room: "i \<le> capacity (dataList p) - length (buffer (dataList p))"
  shows "inlineProducer lib cfg p = Inl (PanicError (NotEnoughFieldData (of_nat (i + 1))))"
proof -
  let ?sent = "sentFor (fields p) 0 (take i (CsvRead lib (inlineData cfg)))"
  have run: "ReadData (CsvRead lib (inlineData cfg)) (fields p) =
      (?sent, Some (NotEnoughFieldData (of_nat (i + 1))))"
    by (rule ReadData_first_short_row[OF i good short])
  from i have "length ?sent = i" by (simp add: length_sentFor[OF good])
  with room have "length ?sent \<le> capacity (dataList p) - length (buffer (dataList p))" by simp
  from inlineProducer_fits[OF run this] show ?thesis by simp
qed

section \<open>Decoding followed by flattening\<close>


lemma unmarshalProtoData_not_a_message:
  assumes "FindDescriptorByName lib reg name = Inr OtherDesc"
  shows "unmarshalProtoData lib reg bytes name = Panic InterfaceConversion"
  using assms by (simp add: unmarshalProtoData_def)

section \<open>Fields on the wire and populated fields\<close>










text \<open>
  In the decoder for repeated varint fields, a field whose number is not on the wire is
  not populated; with the theorem above, it has no key.
\<close>

lemma listElements_absent:
  "Number f \<notin> fst ` set rs \<Longrightarrow> listElements f rs = Some []"
  by (induction rs) auto

lemma decodedMessage_absent:
  "Number f \<notin> set (fieldsOnWire bytes) \<Longrightarrow> wireRecords bytes = Records rs \<Longrightarrow>
   \<not> Has (decodedMessage rs) f"
  using listElements_absent[of f rs]
  by (simp add: fieldsOnWire_def decodedMessage_def parsedList_def)

end
